theory Spec2Isabelle
  imports Complex_Main "HOL-Library.Log_Nat"
begin

section \<open>JavaScript numbers\<close>

text \<open>
  The composer computes with JavaScript numbers, IEEE doubles.  They are modelled as the
  reals extended by the three special values of a double: \<open>NaN\<close> and the two infinities.
  The sign of zero is not modelled.  There are two families of operations.  \<open>js_add\<close>,
  \<open>js_sub\<close>, \<open>js_mul\<close> and \<open>js_div\<close> give the exact real for finite operands; they are
  used for the starts and the selection of clips and for the geometry of a draw, whose
  stated properties do not turn on the last bit.  \<open>fl_add\<close>, \<open>fl_sub\<close> and \<open>fl_mul\<close>
  round the exact result to the nearest double, ties to even, with overflow to an
  infinity, as the processor does; they are used where a comparison or a printed digit
  depends on the rounding: the duration advisory and the opacity of the white flash.
\<close>

datatype jsnum = NaN | NegInf | Fin real | PosInf

fun isNaN :: "jsnum \<Rightarrow> bool" where
  "isNaN NaN = True"
| "isNaN _ = False"

fun isFinite :: "jsnum \<Rightarrow> bool" where
  "isFinite (Fin _) = True"
| "isFinite _ = False"

fun js_neg :: "jsnum \<Rightarrow> jsnum" where
  "js_neg NaN = NaN"
| "js_neg NegInf = PosInf"
| "js_neg (Fin a) = Fin (- a)"
| "js_neg PosInf = NegInf"

fun js_add :: "jsnum \<Rightarrow> jsnum \<Rightarrow> jsnum" where
  "js_add NaN _ = NaN"
| "js_add _ NaN = NaN"
| "js_add (Fin a) (Fin b) = Fin (a + b)"
| "js_add PosInf NegInf = NaN"
| "js_add NegInf PosInf = NaN"
| "js_add PosInf _ = PosInf"
| "js_add _ PosInf = PosInf"
| "js_add NegInf _ = NegInf"
| "js_add _ NegInf = NegInf"

definition js_sub :: "jsnum \<Rightarrow> jsnum \<Rightarrow> jsnum" where
  "js_sub a b = js_add a (js_neg b)"

text \<open>The sign of a number that is not NaN: \<open>-1\<close>, \<open>0\<close> or \<open>1\<close>.\<close>

fun js_sgn :: "jsnum \<Rightarrow> int" where
  "js_sgn NaN = 0"
| "js_sgn NegInf = - 1"
| "js_sgn (Fin a) = (if a < 0 then - 1 else if a = 0 then 0 else 1)"
| "js_sgn PosInf = 1"

definition js_inf_of_sign :: "int \<Rightarrow> jsnum" where
  "js_inf_of_sign s = (if s = 0 then NaN else if s < 0 then NegInf else PosInf)"

fun js_mul :: "jsnum \<Rightarrow> jsnum \<Rightarrow> jsnum" where
  "js_mul NaN _ = NaN"
| "js_mul _ NaN = NaN"
| "js_mul (Fin a) (Fin b) = Fin (a * b)"
| "js_mul a b = js_inf_of_sign (js_sgn a * js_sgn b)"

text \<open>
  Division: a finite nonzero number divided by zero is an infinity (of the dividend's
  sign, the zero being taken as \<open>+0\<close>), \<open>0 / 0\<close> and \<open>\<infinity> / \<infinity>\<close> are NaN, and a finite
  number divided by an infinity is zero.
\<close>

fun js_div :: "jsnum \<Rightarrow> jsnum \<Rightarrow> jsnum" where
  "js_div NaN _ = NaN"
| "js_div _ NaN = NaN"
| "js_div (Fin a) (Fin b) = (if b = 0 then js_inf_of_sign (js_sgn (Fin a)) else Fin (a / b))"
| "js_div (Fin a) _ = Fin 0"
| "js_div a (Fin b) = js_inf_of_sign (js_sgn a * (if b < 0 then - 1 else 1))"
| "js_div _ _ = NaN"

text \<open>Comparisons: every comparison with NaN is false.\<close>

fun js_lt :: "jsnum \<Rightarrow> jsnum \<Rightarrow> bool" where
  "js_lt NaN _ = False"
| "js_lt _ NaN = False"
| "js_lt (Fin a) (Fin b) = (a < b)"
| "js_lt _ NegInf = False"
| "js_lt NegInf _ = True"
| "js_lt PosInf _ = False"
| "js_lt _ PosInf = True"

definition js_gt :: "jsnum \<Rightarrow> jsnum \<Rightarrow> bool" where
  "js_gt a b = js_lt b a"

definition js_ge :: "jsnum \<Rightarrow> jsnum \<Rightarrow> bool" where
  "js_ge a b = (\<not> isNaN a \<and> \<not> isNaN b \<and> \<not> js_lt a b)"

definition js_le :: "jsnum \<Rightarrow> jsnum \<Rightarrow> bool" where
  "js_le a b = js_ge b a"

text \<open>\<open>Math.max\<close>, \<open>Math.min\<close> and \<open>Math.abs\<close>: NaN if an argument is NaN.\<close>

definition Math_max :: "jsnum \<Rightarrow> jsnum \<Rightarrow> jsnum" where
  "Math_max a b = (if isNaN a \<or> isNaN b then NaN else if js_lt a b then b else a)"

definition Math_min :: "jsnum \<Rightarrow> jsnum \<Rightarrow> jsnum" where
  "Math_min a b = (if isNaN a \<or> isNaN b then NaN else if js_lt b a then b else a)"

fun Math_abs :: "jsnum \<Rightarrow> jsnum" where
  "Math_abs NaN = NaN"
| "Math_abs NegInf = PosInf"
| "Math_abs (Fin a) = Fin \<bar>a\<bar>"
| "Math_abs PosInf = PosInf"

text \<open>A number is falsy when it is zero or NaN; \<open>a || b\<close> is \<open>a\<close> when \<open>a\<close> is truthy.\<close>

definition truthy :: "jsnum \<Rightarrow> bool" where
  "truthy a = (\<not> isNaN a \<and> a \<noteq> Fin 0)"

definition js_or :: "jsnum \<Rightarrow> jsnum \<Rightarrow> jsnum" where
  "js_or a b = (if truthy a then a else b)"

text \<open>
  Rounding to a double.  \<open>ilog2 x\<close> is the binary exponent \<open>\<lfloor>log\<^sub>2 x\<rfloor>\<close> of a positive \<open>x\<close>,
  \<open>rne\<close> rounds to the nearest integer, ties to even, and \<open>double_round\<close> rounds to the
  nearest multiple of the unit in the last place: 53 significant bits, the exponent not
  below that of the subnormal numbers.  \<open>fl\<close> adds the overflow to an infinity.
\<close>

definition ilog2 :: "real \<Rightarrow> int" where
  "ilog2 x = (if 1 \<le> x then bitlen \<lfloor>x\<rfloor> - 1 else - bitlen (\<lceil>1 / x\<rceil> - 1))"

definition rne :: "real \<Rightarrow> int" where
  "rne y =
     (let f = \<lfloor>y\<rfloor>; r = y - real_of_int f
      in if r < 1 / 2 then f else if 1 / 2 < r then f + 1 else if even f then f else f + 1)"

definition double_round :: "real \<Rightarrow> real" where
  "double_round x =
     (if x = 0 then 0
      else (let e = max (ilog2 \<bar>x\<bar> - 52) (- 1074)
            in real_of_int (rne (x / 2 powi e)) * 2 powi e))"

definition fl :: "real \<Rightarrow> jsnum" where
  "fl x =
     (let r = double_round x
      in if 2 ^ 1024 \<le> r then PosInf else if r \<le> - (2 ^ 1024) then NegInf else Fin r)"

fun fl_num :: "jsnum \<Rightarrow> jsnum" where
  "fl_num (Fin x) = fl x"
| "fl_num v = v"

definition fl_add :: "jsnum \<Rightarrow> jsnum \<Rightarrow> jsnum" where
  "fl_add a b = fl_num (js_add a b)"

definition fl_sub :: "jsnum \<Rightarrow> jsnum \<Rightarrow> jsnum" where
  "fl_sub a b = fl_num (js_sub a b)"

definition fl_mul :: "jsnum \<Rightarrow> jsnum \<Rightarrow> jsnum" where
  "fl_mul a b = fl_num (js_mul a b)"

text \<open>
  \<open>x.toFixed(2)\<close>, read back as the number its digits denote: the multiple of \<open>1/100\<close>
  nearest to the exact value of \<open>x\<close>, the larger in magnitude at a tie.
\<close>

fun toFixed2 :: "jsnum \<Rightarrow> jsnum" where
  "toFixed2 (Fin a) =
     (if a < 0 then Fin (- (real_of_int \<lfloor>- a * 100 + 1 / 2\<rfloor> / 100))
      else Fin (real_of_int \<lfloor>a * 100 + 1 / 2\<rfloor> / 100))"
| "toFixed2 x = x"

section \<open>The store: audios, media assets and timeline clips\<close>

datatype MediaKind = Image | Video

datatype TransitionType = Nenhuma | Crossfade | FadeIn | CineSweep | WhiteFlash

datatype ComposerMode = Simples | Avancado

record AudioSettings =
  voiceId :: string
  speed :: jsnum
  pitch :: jsnum
  emotion :: string

text \<open>The \<open>blob\<close> of an audio and the \<open>file\<close> of an asset are opaque and left out.\<close>

record GeneratedAudio =
  id_audio :: string
  name_audio :: string
  url_audio :: string
  durationEstimateSeconds :: jsnum
  durationSeconds :: jsnum
  createdAt :: jsnum
  settings :: AudioSettings

record MediaAsset =
  id_asset :: string
  kind :: MediaKind
  name_asset :: string
  url_asset :: string
  duration_asset :: "jsnum option"
  previewFrame :: "string option"

record TimelineClip =
  id_clip :: string
  mediaId :: string
  start :: jsnum
  duration :: jsnum
  transition :: TransitionType

record AppState =
  audios :: "GeneratedAudio list"
  mediaLibrary :: "MediaAsset list"
  timeline :: "TimelineClip list"
  mode :: ComposerMode
  activeAudioId :: "string option"

text \<open>
  \<open>removeAudio\<close>: \<open>remaining\<close> keeps the audios whose id differs; when the removed id
  was the active one, the active id becomes \<open>remaining[0]?.id ?? null\<close>.
\<close>

definition removeAudio :: "string \<Rightarrow> AppState \<Rightarrow> AppState" where
  "removeAudio i state =
     (let remaining = filter (\<lambda>audio. id_audio audio \<noteq> i) (audios state);
          nextActive =
            (if activeAudioId state = Some i
             then (case remaining of [] \<Rightarrow> None | audio # _ \<Rightarrow> Some (id_audio audio))
             else activeAudioId state)
      in state\<lparr>audios := remaining, activeAudioId := nextActive\<rparr>)"

section \<open>Timeline normalizer\<close>

text \<open>
  \<open>normalizeTimeline\<close> maps over the clips with a mutable \<open>cursor\<close>, initially \<open>0\<close>:
  each clip is copied with \<open>start\<close> set to the cursor, and the cursor advances by the
  clip's duration.  \<open>normalize_from\<close> is that loop with the cursor as an argument.
\<close>

fun normalize_from :: "jsnum \<Rightarrow> TimelineClip list \<Rightarrow> TimelineClip list" where
  "normalize_from cursor [] = []"
| "normalize_from cursor (clip # clips) =
     clip\<lparr>start := cursor\<rparr> # normalize_from (js_add cursor (duration clip)) clips"

definition normalizeTimeline :: "TimelineClip list \<Rightarrow> TimelineClip list" where
  "normalizeTimeline clips = normalize_from (Fin 0) clips"

text \<open>
  The normalization invariant of the data model, as a check that runs along the list:
  the first clip starts at the cursor (\<open>0\<close> for a whole timeline) and each next clip
  starts where the previous one ends.
\<close>

fun normalized_from :: "jsnum \<Rightarrow> TimelineClip list \<Rightarrow> bool" where
  "normalized_from cursor [] = True"
| "normalized_from cursor (clip # clips) =
     (start clip = cursor \<and> normalized_from (js_add cursor (duration clip)) clips)"

definition normalized :: "TimelineClip list \<Rightarrow> bool" where
  "normalized clips = normalized_from (Fin 0) clips"

text \<open>A duration of the data model: a finite number of seconds, greater than zero.\<close>

fun pos_finite :: "jsnum \<Rightarrow> bool" where
  "pos_finite (Fin d) = (0 < d)"
| "pos_finite _ = False"

section \<open>The composer component\<close>

definition TRANSITION_DURATION :: jsnum where
  "TRANSITION_DURATION = Fin (6 / 10)"

definition CANVAS_WIDTH :: jsnum where
  "CANVAS_WIDTH = Fin 1280"

definition CANVAS_HEIGHT :: jsnum where
  "CANVAS_HEIGHT = Fin 720"

subsection \<open>Derived values of a render\<close>

text \<open>\<open>audios.find((audio) => audio.id === activeAudioId) ?? audios[0]\<close>\<close>

definition activeAudio :: "GeneratedAudio list \<Rightarrow> string option \<Rightarrow> GeneratedAudio option" where
  "activeAudio auds active =
     (case find (\<lambda>audio. Some (id_audio audio) = active) auds of
        Some audio \<Rightarrow> Some audio
      | None \<Rightarrow> (case auds of [] \<Rightarrow> None | audio # _ \<Rightarrow> Some audio))"

text \<open>\<open>normalizedTimeline.reduce((total, clip) => total + clip.duration, 0)\<close>\<close>

definition compositionDuration :: "TimelineClip list \<Rightarrow> jsnum" where
  "compositionDuration normalizedTimeline =
     foldl (\<lambda>total clip. js_add total (duration clip)) (Fin 0) normalizedTimeline"

text \<open>
  The same reduce with every sum rounded to a double, as the advisory compares it.
\<close>

definition compositionDuration64 :: "TimelineClip list \<Rightarrow> jsnum" where
  "compositionDuration64 normalizedTimeline =
     foldl (\<lambda>total clip. fl_add total (duration clip)) (Fin 0) normalizedTimeline"

text \<open>
  \<open>durationMismatch\<close> is \<open>activeAudio && Math.abs(\<dots>) > 0.8\<close>; it is used only as the
  condition of the advisory, so the model keeps its truthiness: an undefined
  \<open>activeAudio\<close> gives \<open>False\<close>.  The sum, the difference and the literal \<open>0.8\<close> are
  doubles.
\<close>

definition durationMismatch :: "GeneratedAudio list \<Rightarrow> string option \<Rightarrow> TimelineClip list \<Rightarrow> bool" where
  "durationMismatch auds active clips =
     (case activeAudio auds active of
        None \<Rightarrow> False
      | Some audio \<Rightarrow>
          js_gt (Math_abs (fl_sub (js_or (durationSeconds audio) (durationEstimateSeconds audio))
                                  (compositionDuration64 (normalizeTimeline clips))))
                (fl (8 / 10)))"

subsection \<open>Canvas, media elements and the render state\<close>

text \<open>
  A media element is an object of the browser, shared by reference: the media cache maps
  an asset id to the address of its element, and the heap maps an address to the element.
  Reading a property that the element does not have gives \<open>undefined\<close>; every such read
  in \<open>drawMedia\<close> is in a numeric or boolean position, where \<open>undefined\<close> counts as NaN
  or as false.
\<close>

datatype element =
    ImageEl bool nat nat
  | VideoEl nat jsnum jsnum nat nat

fun el_complete :: "element \<Rightarrow> bool" where
  "el_complete (ImageEl c w h) = c"
| "el_complete (VideoEl r t d w h) = False"

fun el_naturalWidth :: "element \<Rightarrow> jsnum" where
  "el_naturalWidth (ImageEl c w h) = Fin (real w)"
| "el_naturalWidth (VideoEl r t d w h) = NaN"

fun el_naturalHeight :: "element \<Rightarrow> jsnum" where
  "el_naturalHeight (ImageEl c w h) = Fin (real h)"
| "el_naturalHeight (VideoEl r t d w h) = NaN"

fun el_readyState :: "element \<Rightarrow> jsnum" where
  "el_readyState (VideoEl r t d w h) = Fin (real r)"
| "el_readyState (ImageEl c w h) = NaN"

fun el_currentTime :: "element \<Rightarrow> jsnum" where
  "el_currentTime (VideoEl r t d w h) = t"
| "el_currentTime (ImageEl c w h) = NaN"

fun el_duration :: "element \<Rightarrow> jsnum" where
  "el_duration (VideoEl r t d w h) = d"
| "el_duration (ImageEl c w h) = NaN"

fun el_videoWidth :: "element \<Rightarrow> jsnum" where
  "el_videoWidth (VideoEl r t d w h) = Fin (real w)"
| "el_videoWidth (ImageEl c w h) = NaN"

fun el_videoHeight :: "element \<Rightarrow> jsnum" where
  "el_videoHeight (VideoEl r t d w h) = Fin (real h)"
| "el_videoHeight (ImageEl c w h) = NaN"

text \<open>
  \<open>video.currentTime = t\<close>.  On an image element the assignment would only add a
  property that nothing reads as a video position.
\<close>

fun set_currentTime :: "jsnum \<Rightarrow> element \<Rightarrow> element" where
  "set_currentTime t' (VideoEl r t d w h) = VideoEl r t' d w h"
| "set_currentTime t' (ImageEl c w h) = ImageEl c w h"

datatype fill_style = Colour string | Rgba nat nat nat jsnum

text \<open>
  The calls made on the 2D context and on media elements, in the order of the calls.
  An element is named by its address.
\<close>

datatype canvas_op =
    SetFillStyle fill_style
  | FillRect jsnum jsnum jsnum jsnum
  | Save
  | Restore
  | SetGlobalAlpha jsnum
  | SetGlobalCompositeOperation string
  | DrawImage nat jsnum jsnum jsnum jsnum
  | SetCurrentTime nat jsnum

record render_state =
  ops :: "canvas_op list"
  heap :: "nat \<Rightarrow> element"

datatype error = TypeError

definition emit :: "canvas_op list \<Rightarrow> render_state \<Rightarrow> render_state" where
  "emit new st = st\<lparr>ops := ops st @ new\<rparr>"

subsection \<open>drawMedia\<close>

text \<open>\<open>asset.duration ?? video.duration\<close>, the duration the asset reports.\<close>

definition reportedDuration :: "MediaAsset \<Rightarrow> element \<Rightarrow> jsnum" where
  "reportedDuration asset video =
     (case duration_asset asset of Some d \<Rightarrow> d | None \<Rightarrow> el_duration video)"

definition safeTime :: "jsnum \<Rightarrow> MediaAsset \<Rightarrow> element \<Rightarrow> jsnum" where
  "safeTime timestamp asset video =
     Math_max (Fin 0) (Math_min timestamp (js_sub (reportedDuration asset video) (Fin (5 / 100))))"

text \<open>The seek of a video that is ready (the inner block of the video branch).\<close>

definition seekVideo :: "nat \<Rightarrow> MediaAsset \<Rightarrow> jsnum \<Rightarrow> render_state \<Rightarrow> render_state" where
  "seekVideo ref asset timestamp st =
     (if \<not> isNaN timestamp \<and> isFinite timestamp then
        (let video = heap st ref;
             t = safeTime timestamp asset video
         in if js_gt (Math_abs (js_sub (el_currentTime video) t)) (Fin (3 / 100))
            then st\<lparr>ops := ops st @ [SetCurrentTime ref t],
                    heap := (heap st)(ref := set_currentTime t video)\<rparr>
            else st)
      else st)"

text \<open>
  The aspect-preserving fit into the canvas: the offsets and the size of the drawn
  image, \<open>(offsetX, offsetY, drawWidth, drawHeight)\<close>.
\<close>

definition letterbox :: "MediaAsset \<Rightarrow> element \<Rightarrow> jsnum \<times> jsnum \<times> jsnum \<times> jsnum" where
  "letterbox asset element =
     (let width = (if kind asset = Image then el_naturalWidth element else el_videoWidth element);
          height = (if kind asset = Image then el_naturalHeight element else el_videoHeight element);
          aspect = js_or (js_div width height) (js_div (Fin 16) (Fin 9));
          targetAspect = js_div CANVAS_WIDTH CANVAS_HEIGHT;
          drawWidth = (if js_gt aspect targetAspect then CANVAS_WIDTH else js_mul CANVAS_HEIGHT aspect);
          drawHeight = (if js_gt aspect targetAspect then js_div CANVAS_WIDTH aspect else CANVAS_HEIGHT);
          offsetX = js_div (js_sub CANVAS_WIDTH drawWidth) (Fin 2);
          offsetY = js_div (js_sub CANVAS_HEIGHT drawHeight) (Fin 2)
      in (offsetX, offsetY, drawWidth, drawHeight))"

definition drawFitted :: "nat \<Rightarrow> MediaAsset \<Rightarrow> render_state \<Rightarrow> render_state" where
  "drawFitted ref asset st =
     (case letterbox asset (heap st ref) of
        (offsetX, offsetY, drawWidth, drawHeight) \<Rightarrow>
          emit [DrawImage ref offsetX offsetY drawWidth drawHeight, Restore] st)"

text \<open>
  \<open>drawMedia(ctx, media, timestamp, alpha)\<close>.  The element of \<open>media\<close> is given by its
  address, the asset is the result of the lookup in the media library, which is
  \<open>undefined\<close> when the library has no asset of that id: reading \<open>asset.kind\<close> then throws.
  A result \<open>Inl\<close> is the exception; it does not report the calls made before the throw.
\<close>

definition drawMedia ::
  "nat \<Rightarrow> MediaAsset option \<Rightarrow> jsnum \<Rightarrow> jsnum \<Rightarrow> render_state \<Rightarrow> error + render_state" where
  "drawMedia ref media_asset timestamp alpha st =
     (let st1 = emit [Save, SetGlobalAlpha alpha] st
      in case media_asset of
           None \<Rightarrow> Inl TypeError
         | Some asset \<Rightarrow>
             if kind asset = Video then
               (if js_lt (el_readyState (heap st1 ref)) (Fin 2) then Inr (emit [Restore] st1)
                else Inr (drawFitted ref asset (seekVideo ref asset timestamp st1)))
             else
               (if \<not> el_complete (heap st1 ref) then Inr (emit [Restore] st1)
                else Inr (drawFitted ref asset st1)))"

subsection \<open>Transition overlays\<close>

definition applyTransitionOverlay :: "TransitionType \<Rightarrow> jsnum \<Rightarrow> render_state \<Rightarrow> render_state" where
  "applyTransitionOverlay type progress st =
     (if type = WhiteFlash then
        (let opacity = Math_max (Fin 0) (fl_sub (Fin 1) (fl_mul progress (Fin 2)))
         in emit [Save,
                  SetFillStyle (Rgba 255 255 255 (toFixed2 opacity)),
                  FillRect (Fin 0) (Fin 0) CANVAS_WIDTH CANVAS_HEIGHT,
                  Restore] st)
      else if type = CineSweep then
        (let sweep = progress;
             width = fl_mul CANVAS_WIDTH sweep
         in emit [Save,
                  SetFillStyle (Rgba 0 0 0 (Fin (7 / 10))),
                  FillRect (Fin 0) (Fin 0) CANVAS_WIDTH CANVAS_HEIGHT,
                  SetGlobalCompositeOperation ''destination-out'',
                  SetFillStyle (Colour ''#000''),
                  FillRect (fl_add (js_neg CANVAS_WIDTH) width) (Fin 0) CANVAS_WIDTH CANVAS_HEIGHT,
                  Restore] st)
      else st)"

subsection \<open>renderFrame\<close>

text \<open>\<open>Array.prototype.findIndex\<close>: the first index whose element satisfies, or \<open>-1\<close>.\<close>

fun findIndex :: "('a \<Rightarrow> bool) \<Rightarrow> 'a list \<Rightarrow> int" where
  "findIndex p [] = - 1"
| "findIndex p (x # xs) =
     (if p x then 0 else (let i = findIndex p xs in if i = - 1 then - 1 else i + 1))"

text \<open>Reading an array at an index: \<open>undefined\<close> outside the array.\<close>

definition js_nth :: "'a list \<Rightarrow> int \<Rightarrow> 'a option" where
  "js_nth xs i = (if 0 \<le> i \<and> i < int (length xs) then Some (xs ! nat i) else None)"

text \<open>\<open>time >= clip.start && time < clip.start + clip.duration\<close>\<close>

definition clipContains :: "jsnum \<Rightarrow> TimelineClip \<Rightarrow> bool" where
  "clipContains time clip =
     (js_ge time (start clip) \<and> js_lt time (js_add (start clip) (duration clip)))"

definition currentIndex :: "TimelineClip list \<Rightarrow> jsnum \<Rightarrow> int" where
  "currentIndex normalizedTimeline time = findIndex (clipContains time) normalizedTimeline"

definition safeIndex :: "TimelineClip list \<Rightarrow> jsnum \<Rightarrow> int" where
  "safeIndex normalizedTimeline time =
     (if currentIndex normalizedTimeline time = - 1 then int (length normalizedTimeline) - 1
      else currentIndex normalizedTimeline time)"

definition currentClip :: "TimelineClip list \<Rightarrow> jsnum \<Rightarrow> TimelineClip option" where
  "currentClip normalizedTimeline time =
     js_nth normalizedTimeline (safeIndex normalizedTimeline time)"

definition previousClip :: "TimelineClip list \<Rightarrow> jsnum \<Rightarrow> TimelineClip option" where
  "previousClip normalizedTimeline time =
     js_nth normalizedTimeline (safeIndex normalizedTimeline time - 1)"

text \<open>\<open>Math.min(1, Math.max(0, localTime / TRANSITION_DURATION))\<close>\<close>

definition transitionProgress :: "jsnum \<Rightarrow> jsnum" where
  "transitionProgress localTime =
     Math_min (Fin 1) (Math_max (Fin 0) (js_div localTime TRANSITION_DURATION))"

text \<open>
  The second half of \<open>renderFrame\<close>, from the lookup of the selected clip's element in
  the media cache to the overlays: what is drawn for the selected clip, its predecessor
  and the local time.
\<close>

definition drawSelected ::
  "(string \<rightharpoonup> nat) \<Rightarrow> MediaAsset list \<Rightarrow> TimelineClip option \<Rightarrow> TimelineClip \<Rightarrow> jsnum \<Rightarrow>
   render_state \<Rightarrow> error + render_state" where
  "drawSelected mediaCache library previous current localTime st =
     (case mediaCache (mediaId current) of
        None \<Rightarrow> Inr st
      | Some mediaElement \<Rightarrow>
          (let currentAsset = find (\<lambda>asset. id_asset asset = mediaId current) library;
               progress = transitionProgress localTime
           in case (if transition current = Crossfade then previous else None) of
                Some prev \<Rightarrow>
                  (case (case mediaCache (mediaId prev) of
                           Some previousMediaElement \<Rightarrow>
                             drawMedia previousMediaElement
                               (find (\<lambda>asset. id_asset asset = mediaId prev) library)
                               (js_sub (duration prev) (js_sub TRANSITION_DURATION localTime))
                               (js_sub (Fin 1) progress) st
                         | None \<Rightarrow> Inr st) of
                     Inl e \<Rightarrow> Inl e
                   | Inr st1 \<Rightarrow> drawMedia mediaElement currentAsset localTime progress st1)
              | None \<Rightarrow>
                  (case drawMedia mediaElement currentAsset localTime (Fin 1) st of
                     Inl e \<Rightarrow> Inl e
                   | Inr st1 \<Rightarrow>
                       if transition current = FadeIn then
                         Inr (emit [Save,
                                    SetFillStyle (Rgba 0 0 0 (js_sub (Fin 1) progress)),
                                    FillRect (Fin 0) (Fin 0) CANVAS_WIDTH CANVAS_HEIGHT,
                                    Restore] st1)
                       else if transition current = WhiteFlash \<or> transition current = CineSweep then
                         Inr (applyTransitionOverlay (transition current) progress st1)
                       else Inr st1)))"

text \<open>The surface is cleared to the background colour first.\<close>

definition clearSurface :: "render_state \<Rightarrow> render_state" where
  "clearSurface st =
     emit [SetFillStyle (Colour ''#050814''),
           FillRect (Fin 0) (Fin 0) CANVAS_WIDTH CANVAS_HEIGHT] st"

definition renderFrame ::
  "(string \<rightharpoonup> nat) \<Rightarrow> MediaAsset list \<Rightarrow> TimelineClip list \<Rightarrow> jsnum \<Rightarrow>
   render_state \<Rightarrow> error + render_state" where
  "renderFrame mediaCache library normalizedTimeline time st =
     (let st0 = clearSurface st
      in if length normalizedTimeline = 0 then Inr st0
         else case currentClip normalizedTimeline time of
                None \<Rightarrow> Inr st0
              | Some clip \<Rightarrow>
                  drawSelected mediaCache library (previousClip normalizedTimeline time) clip
                    (js_sub time (start clip)) st0)"

subsection \<open>handleExport\<close>

record PlayerState =
  isPlaying :: bool
  isExporting :: bool
  currentTime :: jsnum

text \<open>
  The calls that set an export up, in their order.  The browser calls are taken to
  succeed; the model ends where the render loop is first scheduled.
\<close>

datatype export_effect =
    CaptureStream nat
  | NewAudioContext
  | CreateMediaElementSource
  | CreateMediaStreamDestination
  | ConnectSourceToDestination
  | ConnectSourceToSpeakers
  | NewMediaStream
  | NewMediaRecorder string nat
  | SetAudioCurrentTime jsnum
  | AudioContextResume
  | RecorderStart jsnum
  | AudioPlay
  | RequestAnimationFrame

record Composer =
  appState :: AppState
  playerState :: PlayerState
  canvasRef :: bool
  audioRef :: bool
  effects :: "export_effect list"

definition handleExport :: "Composer \<Rightarrow> Composer" where
  "handleExport c =
     (if \<not> canvasRef c
         \<or> activeAudio (audios (appState c)) (activeAudioId (appState c)) = None
         \<or> length (timeline (appState c)) = 0 then c
      else if \<not> audioRef c then c
      else c\<lparr>playerState := (playerState c)\<lparr>isExporting := True, isPlaying := True\<rparr>,
              effects := effects c @
                [CaptureStream 30, NewAudioContext, CreateMediaElementSource,
                 CreateMediaStreamDestination, ConnectSourceToDestination,
                 ConnectSourceToSpeakers, NewMediaStream,
                 NewMediaRecorder ''video/webm;codecs=vp9,opus'' 4000000,
                 SetAudioCurrentTime (Fin 0), AudioContextResume,
                 RecorderStart (js_div (Fin 1000) (Fin 30)), AudioPlay,
                 RequestAnimationFrame]\<rparr>)"

subsection \<open>Example data\<close>

text \<open>
  Two clips of four and three seconds on the media \<open>m1\<close> and \<open>m2\<close>, with stale starts as
  a store may hold them before normalization, and the same clips normalized.
\<close>

definition clipA :: TimelineClip where
  "clipA = \<lparr>id_clip = ''a'', mediaId = ''m1'', start = Fin 9, duration = Fin 4,
            transition = FadeIn\<rparr>"

definition clipB :: TimelineClip where
  "clipB = \<lparr>id_clip = ''b'', mediaId = ''m2'', start = Fin 2, duration = Fin 3,
            transition = Nenhuma\<rparr>"

definition clipA0 :: TimelineClip where
  "clipA0 = clipA\<lparr>start := Fin 0\<rparr>"

definition clipB4 :: TimelineClip where
  "clipB4 = clipB\<lparr>start := Fin 4\<rparr>"

text \<open>
  A media library with an image \<open>m1\<close> and a three-second video \<open>m2\<close>, their elements at
  the addresses 1 and 2, a cache that holds both and a cache that holds only the image.
\<close>

definition assetM1 :: MediaAsset where
  "assetM1 = \<lparr>id_asset = ''m1'', kind = Image, name_asset = ''one.png'', url_asset = ''blob:1'',
              duration_asset = Some (Fin 6), previewFrame = None\<rparr>"

definition assetM2 :: MediaAsset where
  "assetM2 = \<lparr>id_asset = ''m2'', kind = Video, name_asset = ''two.webm'', url_asset = ''blob:2'',
              duration_asset = Some (Fin 3), previewFrame = None\<rparr>"

definition exampleHeap :: "nat \<Rightarrow> element" where
  "exampleHeap =
     (\<lambda>_. ImageEl False 0 0)(1 := ImageEl True 1920 1080, 2 := VideoEl 4 (Fin 0) (Fin 3) 1280 720)"

definition exampleCache :: "string \<rightharpoonup> nat" where
  "exampleCache = [''m1'' \<mapsto> 1, ''m2'' \<mapsto> 2]"

definition imageOnlyCache :: "string \<rightharpoonup> nat" where
  "imageOnlyCache = [''m1'' \<mapsto> 1]"

definition exampleState :: render_state where
  "exampleState = \<lparr>ops = [], heap = exampleHeap\<rparr>"

text \<open>A surface on which a frame of the image has been drawn.\<close>

definition paintedState :: render_state where
  "paintedState =
     \<lparr>ops = [Save, SetGlobalAlpha (Fin 1),
              DrawImage 1 (Fin 0) (Fin 0) (Fin 1280) (Fin 720), Restore],
      heap = exampleHeap\<rparr>"

text \<open>
  An audio of seven and a half seconds, a composer that holds it and has an empty
  timeline, and a composer with the two clips and no audio.
\<close>

definition exampleAudio :: GeneratedAudio where
  "exampleAudio =
     \<lparr>id_audio = ''au1'', name_audio = ''take 1'', url_audio = ''blob:a'',
      durationEstimateSeconds = Fin 8, durationSeconds = Fin (75 / 10), createdAt = Fin 0,
      settings = \<lparr>voiceId = ''v1'', speed = Fin 1, pitch = Fin 0, emotion = ''neutral''\<rparr>\<rparr>"

definition silentComposer :: Composer where
  "silentComposer =
     \<lparr>appState = \<lparr>audios = [], mediaLibrary = [assetM1, assetM2], timeline = [clipA0, clipB4],
                   mode = Avancado, activeAudioId = None\<rparr>,
      playerState = \<lparr>isPlaying = False, isExporting = False, currentTime = Fin 0\<rparr>,
      canvasRef = True, audioRef = True, effects = []\<rparr>"

definition exampleComposer :: Composer where
  "exampleComposer =
     \<lparr>appState = \<lparr>audios = [exampleAudio], mediaLibrary = [assetM1, assetM2], timeline = [],
                   mode = Simples, activeAudioId = Some ''au1''\<rparr>,
      playerState = \<lparr>isPlaying = False, isExporting = False, currentTime = Fin 0\<rparr>,
      canvasRef = True, audioRef = True, effects = []\<rparr>"

text \<open>The state after the example video has been drawn at local time \<open>1\<close>.\<close>

definition soughtState :: render_state where
  "soughtState =
     \<lparr>ops = [Save, SetGlobalAlpha (Fin 1), SetCurrentTime 2 (Fin 1),
              DrawImage 2 (Fin 0) (Fin 0) (Fin 1280) (Fin 720), Restore],
      heap = exampleHeap(2 := VideoEl 4 (Fin 1) (Fin 3) 1280 720)\<rparr>"

text \<open>A store with two audios, the first of them active.\<close>

definition secondAudio :: GeneratedAudio where
  "secondAudio = exampleAudio\<lparr>id_audio := ''au2'', name_audio := ''take 2''\<rparr>"

definition twoAudios :: AppState where
  "twoAudios = \<lparr>audios = [exampleAudio, secondAudio], mediaLibrary = [], timeline = [],
                mode = Simples, activeAudioId = Some ''au1''\<rparr>"

text \<open>
  Two clips with the durations \<open>5.8\<close> and \<open>2.5\<close> as doubles: \<open>5.8\<close> is
  \<open>6530219459687219 / 2\<^sup>5\<^sup>0\<close>.
\<close>

definition clip58 :: TimelineClip where
  "clip58 = \<lparr>id_clip = ''c'', mediaId = ''m1'', start = Fin 0,
             duration = Fin (6530219459687219 / 2 ^ 50), transition = FadeIn\<rparr>"

definition clip25 :: TimelineClip where
  "clip25 = \<lparr>id_clip = ''d'', mediaId = ''m1'', start = Fin 0,
             duration = Fin (25 / 10), transition = Nenhuma\<rparr>"

text \<open>The calls that a render or a draw added to the state it started from.\<close>

definition newOps :: "render_state \<Rightarrow> render_state \<Rightarrow> canvas_op list" where
  "newOps st st' = drop (length (ops st)) (ops st')"

text \<open>
  The positions a cached video can have: it starts at \<open>0\<close>, and a seek leaves it at a
  clamped time.
\<close>

definition positionInRange :: "MediaAsset \<Rightarrow> element \<Rightarrow> bool" where
  "positionInRange asset video =
     (js_ge (el_currentTime video) (Fin 0)
      \<and> js_le (el_currentTime video)
           (Math_max (Fin 0) (js_sub (reportedDuration asset video) (Fin (5 / 100)))))"

section \<open>Properties of the timeline normalizer\<close>

lemma length_normalize_from: "length (normalize_from c xs) = length xs"
  by (induction xs arbitrary: c) simp_all

lemma nth_normalize_from_keeps:
  "i < length xs \<Longrightarrow>
   normalize_from c xs ! i = (xs ! i)\<lparr>start := start (normalize_from c xs ! i)\<rparr>"
proof (induction xs arbitrary: c i)
  case Nil
  then show ?case by simp
next
  case (Cons x xs)
  then show ?case by (cases i) simp_all
qed

lemma start_normalize_from_0: "xs \<noteq> [] \<Longrightarrow> start (normalize_from c xs ! 0) = c"
  by (cases xs) simp_all

lemma start_normalize_from_Suc:
  "Suc i < length xs \<Longrightarrow>
   start (normalize_from c xs ! Suc i) =
   js_add (start (normalize_from c xs ! i)) (duration (xs ! i))"
proof (induction xs arbitrary: c i)
  case Nil
  then show ?case by simp
next
  case (Cons x xs)
  show ?case
  proof (cases i)
    case 0
    with Cons.prems show ?thesis by (cases xs) simp_all
  next
    case (Suc j)
    with Cons.prems have "Suc j < length xs" by simp
    from Cons.IH [OF this] Suc show ?thesis by simp
  qed
qed

lemma normalize_from_idem: "normalize_from c (normalize_from c xs) = normalize_from c xs"
  by (induction xs arbitrary: c) simp_all

lemma js_add_nonneg: "js_ge c (Fin 0) \<Longrightarrow> js_lt (Fin 0) d \<Longrightarrow> js_ge (js_add c d) (Fin 0)"
  by (cases c; cases d) (simp_all add: js_ge_def)

lemma starts_nonneg:
  "js_ge c (Fin 0) \<Longrightarrow> \<forall>x \<in> set xs. js_lt (Fin 0) (duration x) \<Longrightarrow>
   \<forall>y \<in> set (normalize_from c xs). js_ge (start y) (Fin 0)"
proof (induction xs arbitrary: c)
  case Nil
  then show ?case by simp
next
  case (Cons x xs)
  then have "js_ge (js_add c (duration x)) (Fin 0)" by (simp add: js_add_nonneg)
  with Cons show ?case by simp
qed

text \<open>
  Claim C1.  For every list of clips with positive durations, \<open>normalizeTimeline\<close> returns
  a list of the same length; the first start is \<open>0\<close>, every next start is the previous
  start plus the previous clip's duration, and normalizing the output again returns the
  output.  Every start is a number at or above \<open>0\<close> (so none is NaN, and the equalities
  are equalities of JavaScript numbers too).
\<close>

theorem normalizeTimeline_cumulative_idempotent:
  assumes "\<forall>c \<in> set clips. js_lt (Fin 0) (duration c)"
  shows "length (normalizeTimeline clips) = length clips
       \<and> (clips \<noteq> [] \<longrightarrow> start (normalizeTimeline clips ! 0) = Fin 0)
       \<and> (\<forall>i. Suc i < length clips \<longrightarrow>
            start (normalizeTimeline clips ! Suc i) =
            js_add (start (normalizeTimeline clips ! i)) (duration (clips ! i)))
       \<and> (\<forall>i < length clips. js_ge (start (normalizeTimeline clips ! i)) (Fin 0))
       \<and> normalizeTimeline (normalizeTimeline clips) = normalizeTimeline clips"
proof -
  have "js_ge (Fin 0) (Fin 0)" by (simp add: js_ge_def)
  from starts_nonneg [OF this assms]
  have "\<forall>i < length clips. js_ge (start (normalize_from (Fin 0) clips ! i)) (Fin 0)"
    by (simp add: length_normalize_from)
  then show ?thesis
    unfolding normalizeTimeline_def
    by (simp add: length_normalize_from start_normalize_from_0 start_normalize_from_Suc
        normalize_from_idem)
qed

theorem normalizeTimeline_cumulative_idempotent_witness:
  "js_lt (Fin 0) (duration clipA) \<and> js_lt (Fin 0) (duration clipB)
   \<and> length (normalizeTimeline [clipA, clipB]) = 2
   \<and> start (normalizeTimeline [clipA, clipB] ! 0) = Fin 0
   \<and> start (normalizeTimeline [clipA, clipB] ! 1) = Fin 4
   \<and> normalizeTimeline (normalizeTimeline [clipA, clipB]) = normalizeTimeline [clipA, clipB]"
proof -
  have pos: "\<forall>c \<in> set [clipA, clipB]. js_lt (Fin 0) (duration c)"
    by (simp add: clipA_def clipB_def)
  from normalizeTimeline_cumulative_idempotent [OF pos]
  have "length (normalizeTimeline [clipA, clipB]) = 2"
    and "start (normalizeTimeline [clipA, clipB] ! 0) = Fin 0"
    and "start (normalizeTimeline [clipA, clipB] ! Suc 0) =
         js_add (start (normalizeTimeline [clipA, clipB] ! 0)) (duration ([clipA, clipB] ! 0))"
    and "normalizeTimeline (normalizeTimeline [clipA, clipB]) = normalizeTimeline [clipA, clipB]"
    by simp_all
  with pos show ?thesis by (simp add: clipA_def)
qed

text \<open>
  Claim C9.  \<open>normalizeTimeline\<close> changes only the \<open>start\<close> field: the output has the
  length and order of the input, and the output clip at each index has the id, the
  mediaId, the duration and the transition of the input clip at that index; it is that
  input clip with a new \<open>start\<close>.
\<close>

theorem normalizeTimeline_changes_only_start:
  "length (normalizeTimeline clips) = length clips
   \<and> (\<forall>i < length clips.
        id_clip (normalizeTimeline clips ! i) = id_clip (clips ! i)
      \<and> mediaId (normalizeTimeline clips ! i) = mediaId (clips ! i)
      \<and> duration (normalizeTimeline clips ! i) = duration (clips ! i)
      \<and> transition (normalizeTimeline clips ! i) = transition (clips ! i)
      \<and> normalizeTimeline clips ! i =
          (clips ! i)\<lparr>start := start (normalizeTimeline clips ! i)\<rparr>)"
proof -
  have "id_clip (normalize_from c clips ! i) = id_clip (clips ! i)
      \<and> mediaId (normalize_from c clips ! i) = mediaId (clips ! i)
      \<and> duration (normalize_from c clips ! i) = duration (clips ! i)
      \<and> transition (normalize_from c clips ! i) = transition (clips ! i)"
    if "i < length clips" for i c
  proof -
    from nth_normalize_from_keeps [OF that, of c] obtain s where
      "normalize_from c clips ! i = (clips ! i)\<lparr>start := s\<rparr>" by blast
    then show ?thesis by simp
  qed
  then show ?thesis
    unfolding normalizeTimeline_def
    using nth_normalize_from_keeps [of _ clips "Fin 0"]
    by (simp add: length_normalize_from)
qed

theorem normalizeTimeline_changes_only_start_witness:
  "(1::nat) < length [clipA, clipB]
   \<and> id_clip (normalizeTimeline [clipA, clipB] ! 1) = ''b''
   \<and> mediaId (normalizeTimeline [clipA, clipB] ! 1) = ''m2''
   \<and> duration (normalizeTimeline [clipA, clipB] ! 1) = Fin 3
   \<and> transition (normalizeTimeline [clipA, clipB] ! 1) = Nenhuma"
  using normalizeTimeline_changes_only_start [of "[clipA, clipB]"]
  by (simp add: clipB_def)

section \<open>Properties of the frame renderer\<close>

lemma findIndex_range: "findIndex p xs = - 1 \<or> (0 \<le> findIndex p xs \<and> findIndex p xs < int (length xs))"
  by (induction xs) (auto simp: Let_def)

lemma findIndex_none: "findIndex p xs = - 1 \<longleftrightarrow> (\<forall>x \<in> set xs. \<not> p x)"
proof (induction xs)
  case Nil
  then show ?case by simp
next
  case (Cons x xs)
  have "findIndex p xs \<noteq> - 2" using findIndex_range [of p xs] by auto
  with Cons show ?case by (auto simp: Let_def)
qed

lemma findIndex_hit:
  "i < length xs \<Longrightarrow> p (xs ! i) \<Longrightarrow> \<forall>j < i. \<not> p (xs ! j) \<Longrightarrow> findIndex p xs = int i"
proof (induction xs arbitrary: i)
  case Nil
  then show ?case by simp
next
  case (Cons x xs)
  show ?case
  proof (cases i)
    case 0
    with Cons.prems show ?thesis by simp
  next
    case (Suc k)
    from Cons.prems Suc have "\<not> p x" by auto
    moreover from Cons.prems Suc have "findIndex p xs = int k"
      by (intro Cons.IH) auto
    ultimately show ?thesis using Suc by (simp add: Let_def)
  qed
qed

lemma js_cmp_Fin [simp]:
  "js_ge (Fin a) (Fin b) = (b \<le> a)" "js_gt (Fin a) (Fin b) = (b < a)" "js_le (Fin a) (Fin b) = (a \<le> b)"
  by (auto simp: js_ge_def js_gt_def js_le_def)

lemma js_sub_Fin [simp]: "js_sub (Fin a) (Fin b) = Fin (a - b)"
  by (simp add: js_sub_def)

lemma pos_finiteE: "pos_finite d \<Longrightarrow> (\<And>r. d = Fin r \<Longrightarrow> 0 < r \<Longrightarrow> P) \<Longrightarrow> P"
  by (cases d) simp_all

text \<open>
  Along a normalized list with positive finite durations every start is finite and not
  before the cursor.
\<close>

lemma normalized_from_starts:
  "normalized_from (Fin r) cs \<Longrightarrow> \<forall>c \<in> set cs. pos_finite (duration c) \<Longrightarrow>
   \<forall>c \<in> set cs. \<exists>s d. start c = Fin s \<and> duration c = Fin d \<and> r \<le> s \<and> 0 < d"
proof (induction cs arbitrary: r)
  case Nil
  then show ?case by simp
next
  case (Cons c cs)
  from Cons.prems obtain d where d: "duration c = Fin d" "0 < d"
    by (auto elim: pos_finiteE)
  from Cons.prems d have "normalized_from (Fin (r + d)) cs" and sc: "start c = Fin r" by simp_all
  from Cons.IH [OF this(1)] Cons.prems
  have "\<forall>c \<in> set cs. \<exists>s d'. start c = Fin s \<and> duration c = Fin d' \<and> r + d \<le> s \<and> 0 < d'" by simp
  then have "\<forall>c \<in> set cs. \<exists>s d'. start c = Fin s \<and> duration c = Fin d' \<and> r \<le> s \<and> 0 < d'"
    using d(2) by fastforce
  with sc d show ?case by simp
qed

lemma total_from:
  "\<forall>c \<in> set cs. pos_finite (duration c) \<Longrightarrow>
   \<exists>T. foldl (\<lambda>total clip. js_add total (duration clip)) (Fin r) cs = Fin T \<and> r \<le> T"
proof (induction cs arbitrary: r)
  case Nil
  then show ?case by simp
next
  case (Cons c cs)
  from Cons.prems obtain d where d: "duration c = Fin d" "0 < d"
    by (auto elim: pos_finiteE)
  from Cons.prems have "\<forall>c \<in> set cs. pos_finite (duration c)" by simp
  from Cons.IH [OF this, of "r + d"] obtain T where
    "foldl (\<lambda>total clip. js_add total (duration clip)) (Fin (r + d)) cs = Fin T" "r + d \<le> T" by blast
  with d show ?case by auto
qed

text \<open>A time from the cursor up to the total lies in the interval of exactly one clip.\<close>

lemma cover_from:
  assumes "normalized_from (Fin r) cs" "\<forall>c \<in> set cs. pos_finite (duration c)"
    and "foldl (\<lambda>total clip. js_add total (duration clip)) (Fin r) cs = Fin T"
    and "r \<le> t" "t < T"
  shows "\<exists>i < length cs. clipContains (Fin t) (cs ! i) \<and> (\<forall>j < length cs. clipContains (Fin t) (cs ! j) \<longrightarrow> j = i)"
  using assms
proof (induction cs arbitrary: r)
  case Nil
  then show ?case by simp
next
  case (Cons c cs)
  from Cons.prems obtain d where d: "duration c = Fin d" "0 < d"
    by (auto elim: pos_finiteE)
  from Cons.prems d have nf: "normalized_from (Fin (r + d)) cs" and sc: "start c = Fin r" by simp_all
  from Cons.prems have pf: "\<forall>c \<in> set cs. pos_finite (duration c)" by simp
  from Cons.prems d have tot: "foldl (\<lambda>total clip. js_add total (duration clip)) (Fin (r + d)) cs = Fin T" by simp
  from normalized_from_starts [OF nf pf]
  have later: "\<forall>c \<in> set cs. \<exists>s d'. start c = Fin s \<and> duration c = Fin d' \<and> r + d \<le> s \<and> 0 < d'" .
  show ?case
  proof (cases "t < r + d")
    case True
    have head: "clipContains (Fin t) c" using True \<open>r \<le> t\<close> sc d by (simp add: clipContains_def)
    have "\<not> clipContains (Fin t) c'" if "c' \<in> set cs" for c'
      using later that True by (fastforce simp: clipContains_def)
    then have "\<forall>j < length (c # cs). clipContains (Fin t) ((c # cs) ! j) \<longrightarrow> j = 0"
      by (auto simp: nth_Cons split: nat.splits)
    with head show ?thesis by (intro exI [of _ 0]) simp
  next
    case False
    then have "r + d \<le> t" by simp
    from Cons.IH [OF nf pf tot this \<open>t < T\<close>] obtain i where
      i: "i < length cs" "clipContains (Fin t) (cs ! i)"
         "\<forall>j < length cs. clipContains (Fin t) (cs ! j) \<longrightarrow> j = i" by blast
    have nohead: "\<not> clipContains (Fin t) c" using False sc d by (simp add: clipContains_def)
    have "\<forall>j < length (c # cs). clipContains (Fin t) ((c # cs) ! j) \<longrightarrow> j = Suc i"
      using i(3) nohead by (auto simp: nth_Cons split: nat.splits)
    with i(1,2) show ?thesis by (intro exI [of _ "Suc i"]) simp
  qed
qed

text \<open>At or past the total no interval contains the time.\<close>

lemma miss_from:
  assumes "normalized_from (Fin r) cs" "\<forall>c \<in> set cs. pos_finite (duration c)"
    and "js_ge time (foldl (\<lambda>total clip. js_add total (duration clip)) (Fin r) cs)"
  shows "\<forall>c \<in> set cs. \<not> clipContains time c"
  using assms
proof (induction cs arbitrary: r)
  case Nil
  then show ?case by simp
next
  case (Cons c cs)
  from Cons.prems obtain d where d: "duration c = Fin d" "0 < d"
    by (auto elim: pos_finiteE)
  from Cons.prems d have nf: "normalized_from (Fin (r + d)) cs" and sc: "start c = Fin r" by simp_all
  from Cons.prems have pf: "\<forall>c \<in> set cs. pos_finite (duration c)" by simp
  from Cons.prems d have ge: "js_ge time (foldl (\<lambda>total clip. js_add total (duration clip)) (Fin (r + d)) cs)" by simp
  from total_from [OF pf, of "r + d"] obtain T where
    T: "foldl (\<lambda>total clip. js_add total (duration clip)) (Fin (r + d)) cs = Fin T" "r + d \<le> T" by blast
  from ge T have "\<not> js_lt time (Fin (r + d))"
    by (cases time) (simp_all add: js_ge_def)
  then have "\<not> clipContains time c" using sc d by (simp add: clipContains_def)
  with Cons.IH [OF nf pf ge] show ?case by simp
qed

lemma total_from_durations:
  "\<forall>c \<in> set cs. pos_finite (duration c) \<Longrightarrow> \<exists>T. compositionDuration cs = Fin T \<and> 0 \<le> T"
  unfolding compositionDuration_def by (rule total_from)

text \<open>The index that \<open>findIndex\<close> returns for a time from \<open>0\<close> up to the total.\<close>

lemma lookup_hit:
  assumes nf: "normalized_from (Fin 0) clips"
    and pf: "\<forall>c \<in> set clips. pos_finite (duration c)"
    and T: "compositionDuration clips = Fin T"
    and t: "0 \<le> t" "t < T"
  shows "\<exists>i < length clips.
           clipContains (Fin t) (clips ! i)
         \<and> (\<forall>j < length clips. clipContains (Fin t) (clips ! j) \<longrightarrow> j = i)
         \<and> currentIndex clips (Fin t) = int i"
proof -
  have "\<exists>i < length clips.
          clipContains (Fin t) (clips ! i)
        \<and> (\<forall>j < length clips. clipContains (Fin t) (clips ! j) \<longrightarrow> j = i)"
    by (rule cover_from [OF nf pf T [unfolded compositionDuration_def] t])
  then obtain i where i: "i < length clips" "clipContains (Fin t) (clips ! i)"
    "\<forall>j < length clips. clipContains (Fin t) (clips ! j) \<longrightarrow> j = i"
    by (elim exE conjE)
  have nolater: "\<forall>j < i. \<not> clipContains (Fin t) (clips ! j)"
  proof (intro allI impI notI)
    fix j assume "j < i" and c: "clipContains (Fin t) (clips ! j)"
    with i(1) have "j < length clips" by simp
    with i(3) c have "j = i" by simp
    with \<open>j < i\<close> show False by simp
  qed
  have idx: "findIndex (clipContains (Fin t)) clips = int i"
    by (rule findIndex_hit [OF i(1) i(2) nolater])
  show ?thesis
  proof (intro exI [of _ i] conjI)
    show "i < length clips" by (rule i(1))
    show "clipContains (Fin t) (clips ! i)" by (rule i(2))
    show "\<forall>j < length clips. clipContains (Fin t) (clips ! j) \<longrightarrow> j = i" by (rule i(3))
    show "currentIndex clips (Fin t) = int i" unfolding currentIndex_def by (rule idx)
  qed
qed

text \<open>What \<open>renderFrame\<close> does once \<open>findIndex\<close> has returned an index of the timeline.\<close>

lemma renderFrame_at_index:
  assumes "currentIndex clips time = int i" and "i < length clips" and "clips \<noteq> []"
  shows "currentClip clips time = Some (clips ! i)
       \<and> renderFrame mediaCache library clips time st =
           drawSelected mediaCache library (js_nth clips (int i - 1)) (clips ! i)
             (js_sub time (start (clips ! i))) (clearSurface st)"
  using assms
  by (simp add: renderFrame_def currentClip_def previousClip_def safeIndex_def js_nth_def)

text \<open>When no interval contains the timestamp, the last clip is selected.\<close>

lemma renderFrame_fallback:
  assumes "clips \<noteq> []" and "currentIndex clips time = - 1"
  shows "currentClip clips time = Some (last clips)
       \<and> renderFrame mediaCache library clips time st =
           drawSelected mediaCache library (js_nth clips (int (length clips) - 2)) (last clips)
             (js_sub time (start (last clips))) (clearSurface st)"
  using assms
  by (simp add: renderFrame_def currentClip_def previousClip_def safeIndex_def js_nth_def
      last_conv_nth nat_diff_distrib)

lemma lookup_miss:
  assumes nf: "normalized_from (Fin 0) clips"
    and pf: "\<forall>c \<in> set clips. pos_finite (duration c)"
    and ne: "clips \<noteq> []"
    and ge: "js_ge time (compositionDuration clips)"
  shows "currentClip clips time = Some (last clips)
       \<and> renderFrame mediaCache library clips time st =
           drawSelected mediaCache library (js_nth clips (int (length clips) - 2)) (last clips)
             (js_sub time (start (last clips))) (clearSurface st)"
proof -
  from miss_from [OF nf pf ge [unfolded compositionDuration_def]]
  have "currentIndex clips time = - 1" by (simp add: currentIndex_def findIndex_none)
  from renderFrame_fallback [OF ne this] show ?thesis .
qed

lemma normalized_normalize_from: "normalized_from c (normalize_from c cs)"
  by (induction cs arbitrary: c) simp_all

text \<open>The renderer reads \<open>normalizeTimeline(timeline)\<close>, which is normalized.\<close>

lemma normalized_normalizeTimeline: "normalized (normalizeTimeline clips)"
  by (simp add: normalized_def normalizeTimeline_def normalized_normalize_from)

text \<open>
  Claim C2.  On a normalized non-empty timeline (clip durations finite and positive, as
  the data model requires), for a timestamp \<open>t\<close> with \<open>0 \<le> t < totalDuration\<close> exactly one
  clip has \<open>t\<close> in its half-open interval \<open>[start, start + duration)\<close>, and \<open>renderFrame\<close>
  selects it; the start of a clip, being the end of the one before, selects the following
  clip; for \<open>t \<ge> totalDuration\<close> the last clip is selected.  In both cases what is drawn
  is drawn for the selected clip with the local time \<open>t - start\<close> of the selected clip.
\<close>

theorem renderFrame_selects_clip:
  assumes "normalized clips" and "clips \<noteq> []" and "\<forall>c \<in> set clips. pos_finite (duration c)"
  shows "(js_ge time (Fin 0) \<and> js_lt time (compositionDuration clips) \<longrightarrow>
            (\<exists>i < length clips.
               clipContains time (clips ! i)
             \<and> (\<forall>j < length clips. clipContains time (clips ! j) \<longrightarrow> j = i)
             \<and> currentClip clips time = Some (clips ! i)
             \<and> renderFrame mediaCache library clips time st =
                 drawSelected mediaCache library (js_nth clips (int i - 1)) (clips ! i)
                   (js_sub time (start (clips ! i))) (clearSurface st)))
       \<and> (\<forall>i. Suc i < length clips \<longrightarrow>
            currentClip clips (start (clips ! Suc i)) = Some (clips ! Suc i))
       \<and> (js_ge time (compositionDuration clips) \<longrightarrow>
            currentClip clips time = Some (last clips)
          \<and> renderFrame mediaCache library clips time st =
              drawSelected mediaCache library (js_nth clips (int (length clips) - 2)) (last clips)
                (js_sub time (start (last clips))) (clearSurface st))"
proof (intro conjI impI allI)
  from assms(3) obtain T where T: "compositionDuration clips = Fin T" "0 \<le> T"
    using total_from_durations by blast
  have nf: "normalized_from (Fin 0) clips" using assms(1) by (simp add: normalized_def)
  {
    assume "js_ge time (Fin 0) \<and> js_lt time (compositionDuration clips)"
    with T obtain t where t: "time = Fin t" "0 \<le> t" "t < T"
      by (cases time) (simp_all add: js_ge_def)
    from lookup_hit [OF nf assms(3) T(1) t(2,3)] obtain i where
      i: "i < length clips" "clipContains (Fin t) (clips ! i)"
         "\<forall>j < length clips. clipContains (Fin t) (clips ! j) \<longrightarrow> j = i"
         "currentIndex clips (Fin t) = int i"
      by (elim exE conjE)
    show "\<exists>i < length clips.
               clipContains time (clips ! i)
             \<and> (\<forall>j < length clips. clipContains time (clips ! j) \<longrightarrow> j = i)
             \<and> currentClip clips time = Some (clips ! i)
             \<and> renderFrame mediaCache library clips time st =
                 drawSelected mediaCache library (js_nth clips (int i - 1)) (clips ! i)
                   (js_sub time (start (clips ! i))) (clearSurface st)"
      unfolding t(1)
    proof (intro exI [of _ i] conjI)
      show "i < length clips" by (rule i(1))
      show "clipContains (Fin t) (clips ! i)" by (rule i(2))
      show "\<forall>j < length clips. clipContains (Fin t) (clips ! j) \<longrightarrow> j = i" by (rule i(3))
      show "currentClip clips (Fin t) = Some (clips ! i)"
        using renderFrame_at_index [OF i(4) i(1) assms(2)] by (rule conjunct1)
      show "renderFrame mediaCache library clips (Fin t) st =
            drawSelected mediaCache library (js_nth clips (int i - 1)) (clips ! i)
              (js_sub (Fin t) (start (clips ! i))) (clearSurface st)"
        using renderFrame_at_index [OF i(4) i(1) assms(2)] by (rule conjunct2)
    qed
  }
  {
    fix i assume si: "Suc i < length clips"
    then have mem: "clips ! Suc i \<in> set clips" by simp
    from normalized_from_starts [OF nf assms(3)] mem
    obtain s d where sd: "start (clips ! Suc i) = Fin s" "duration (clips ! Suc i) = Fin d"
      "0 \<le> s" "0 < d" by blast
    then have here: "clipContains (Fin s) (clips ! Suc i)" by (simp add: clipContains_def)
    have "s < T"
    proof (rule ccontr)
      assume "\<not> s < T"
      then have "js_ge (Fin s) (compositionDuration clips)" using T by simp
      from miss_from [OF nf assms(3) this [unfolded compositionDuration_def]] mem
      have "\<not> clipContains (Fin s) (clips ! Suc i)" by (rule bspec)
      with here show False by contradiction
    qed
    from lookup_hit [OF nf assms(3) T(1) sd(3) this] obtain k where k: "k < length clips"
      "\<forall>j < length clips. clipContains (Fin s) (clips ! j) \<longrightarrow> j = k"
      "currentIndex clips (Fin s) = int k" by (elim exE conjE)
    from k(2) si here have "Suc i = k" by (elim allE [of _ "Suc i"]) (elim impE, assumption+)
    with renderFrame_at_index [OF k(3) k(1) assms(2)] sd(1)
    show "currentClip clips (start (clips ! Suc i)) = Some (clips ! Suc i)" by simp
  }
  {
    assume ge: "js_ge time (compositionDuration clips)"
    from lookup_miss [OF nf assms(3) assms(2) ge]
    show "currentClip clips time = Some (last clips)" by (rule conjunct1)
    from lookup_miss [OF nf assms(3) assms(2) ge]
    show "renderFrame mediaCache library clips time st =
              drawSelected mediaCache library (js_nth clips (int (length clips) - 2)) (last clips)
                (js_sub time (start (last clips))) (clearSurface st)" by (rule conjunct2)
  }
qed

lemma example_clips_simps:
  "start clipA0 = Fin 0" "duration clipA0 = Fin 4" "start clipB4 = Fin 4" "duration clipB4 = Fin 3"
  "mediaId clipA0 = ''m1''" "mediaId clipB4 = ''m2''"
  "transition clipA0 = FadeIn" "transition clipB4 = Nenhuma"
  by (simp_all add: clipA0_def clipB4_def clipA_def clipB_def)

theorem renderFrame_selects_clip_witness:
  "normalized [clipA0, clipB4] \<and> [clipA0, clipB4] \<noteq> []
   \<and> pos_finite (duration clipA0) \<and> pos_finite (duration clipB4)
   \<and> js_ge (Fin 5) (Fin 0) \<and> js_lt (Fin 5) (compositionDuration [clipA0, clipB4])
   \<and> currentClip [clipA0, clipB4] (Fin 5) = Some clipB4
   \<and> renderFrame exampleCache [assetM1, assetM2] [clipA0, clipB4] (Fin 5) exampleState =
       drawSelected exampleCache [assetM1, assetM2] (Some clipA0) clipB4 (Fin 1)
         (clearSurface exampleState)
   \<and> currentClip [clipA0, clipB4] (Fin 4) = Some clipB4
   \<and> js_ge (Fin 7) (compositionDuration [clipA0, clipB4])
   \<and> currentClip [clipA0, clipB4] (Fin 7) = Some clipB4"
proof -
  let ?E = "[clipA0, clipB4]"
  have h1: "normalized ?E" by (simp add: normalized_def example_clips_simps)
  have h2: "?E \<noteq> []" by simp
  have h3: "\<forall>c \<in> set ?E. pos_finite (duration c)" by (simp add: example_clips_simps)
  have tot: "compositionDuration ?E = Fin 7"
    by (simp add: compositionDuration_def example_clips_simps)
  note inst = renderFrame_selects_clip [OF h1 h2 h3, where mediaCache = exampleCache
      and library = "[assetM1, assetM2]" and st = exampleState]
  have a5: "js_ge (Fin 5) (Fin 0) \<and> js_lt (Fin 5) (compositionDuration ?E)" by (simp add: tot)
  from inst [of "Fin 5"] a5 obtain i where i: "i < length ?E" "clipContains (Fin 5) (?E ! i)"
    "currentClip ?E (Fin 5) = Some (?E ! i)"
    "renderFrame exampleCache [assetM1, assetM2] ?E (Fin 5) exampleState =
       drawSelected exampleCache [assetM1, assetM2] (js_nth ?E (int i - 1)) (?E ! i)
         (js_sub (Fin 5) (start (?E ! i))) (clearSurface exampleState)"
    by blast
  from i(1) have "i = 0 \<or> i = 1" by auto
  moreover have "\<not> clipContains (Fin 5) clipA0" by (simp add: clipContains_def example_clips_simps)
  ultimately have i1: "i = 1" using i(2) by auto
  from i(3) i1 have c5: "currentClip ?E (Fin 5) = Some clipB4" by simp
  from i(4) i1 have r5: "renderFrame exampleCache [assetM1, assetM2] ?E (Fin 5) exampleState =
       drawSelected exampleCache [assetM1, assetM2] (Some clipA0) clipB4 (Fin 1)
         (clearSurface exampleState)"
    by (simp add: js_nth_def example_clips_simps)
  from inst [of "Fin 5"] have "currentClip ?E (start (?E ! Suc 0)) = Some (?E ! Suc 0)" by simp
  then have c4: "currentClip ?E (Fin 4) = Some clipB4" by (simp add: example_clips_simps)
  have a7: "js_ge (Fin 7) (compositionDuration ?E)" by (simp add: tot)
  with inst [of "Fin 7"] have c7: "currentClip ?E (Fin 7) = Some clipB4" by simp
  from h3 have "pos_finite (duration clipA0)" "pos_finite (duration clipB4)" by simp_all
  with h1 h2 a5 c5 r5 c4 a7 c7 show ?thesis by blast
qed

text \<open>
  Claim C3, as amended.  \<open>renderFrame\<close> has no case for a negative or NaN timestamp.  On a
  normalized non-empty timeline (durations finite and positive) no interval contains such
  a timestamp, so the fallback applies: the \<^emph>\<open>last\<close> clip is selected, and what is drawn is
  drawn for it with the local time \<open>time - start\<close> of the last clip (negative, or NaN).
\<close>

theorem renderFrame_negative_or_NaN:
  assumes "normalized clips" and "clips \<noteq> []" and "\<forall>c \<in> set clips. pos_finite (duration c)"
    and "js_lt time (Fin 0) \<or> isNaN time"
  shows "currentClip clips time = Some (last clips)
       \<and> renderFrame mediaCache library clips time st =
           drawSelected mediaCache library (js_nth clips (int (length clips) - 2)) (last clips)
             (js_sub time (start (last clips))) (clearSurface st)"
proof -
  have nf: "normalized_from (Fin 0) clips" using assms(1) by (simp add: normalized_def)
  have "\<not> clipContains time c" if "c \<in> set clips" for c
  proof -
    from normalized_from_starts [OF nf assms(3)] that
    obtain s where s: "start c = Fin s" "0 \<le> s" by blast
    from assms(4) s show ?thesis
      by (cases time) (simp_all add: clipContains_def js_ge_def)
  qed
  then have "currentIndex clips time = - 1" by (simp add: currentIndex_def findIndex_none)
  from renderFrame_fallback [OF assms(2) this] show ?thesis .
qed

theorem renderFrame_negative_or_NaN_witness:
  "normalized [clipA0, clipB4] \<and> [clipA0, clipB4] \<noteq> []
   \<and> pos_finite (duration clipA0) \<and> pos_finite (duration clipB4)
   \<and> js_lt (Fin (- 1)) (Fin 0)
   \<and> currentClip [clipA0, clipB4] (Fin (- 1)) = Some clipB4
   \<and> renderFrame exampleCache [assetM1, assetM2] [clipA0, clipB4] (Fin (- 1)) exampleState =
       drawSelected exampleCache [assetM1, assetM2] (Some clipA0) clipB4 (Fin (- 5))
         (clearSurface exampleState)
   \<and> isNaN NaN
   \<and> currentClip [clipA0, clipB4] NaN = Some clipB4"
proof -
  let ?E = "[clipA0, clipB4]"
  have h1: "normalized ?E" by (simp add: normalized_def example_clips_simps)
  have h2: "?E \<noteq> []" by simp
  have h3: "\<forall>c \<in> set ?E. pos_finite (duration c)" by (simp add: example_clips_simps)
  have h4: "js_lt (Fin (- 1)) (Fin 0) \<or> isNaN (Fin (- 1))" by simp
  have h5: "js_lt NaN (Fin 0) \<or> isNaN NaN" by simp
  from renderFrame_negative_or_NaN [OF h1 h2 h3 h4, of exampleCache "[assetM1, assetM2]" exampleState]
  have neg: "currentClip ?E (Fin (- 1)) = Some clipB4"
    "renderFrame exampleCache [assetM1, assetM2] ?E (Fin (- 1)) exampleState =
       drawSelected exampleCache [assetM1, assetM2] (Some clipA0) clipB4 (Fin (- 5))
         (clearSurface exampleState)"
    by (simp_all add: js_nth_def example_clips_simps)
  from renderFrame_negative_or_NaN [OF h1 h2 h3 h5, of exampleCache "[assetM1, assetM2]" exampleState]
  have nan: "currentClip ?E NaN = Some clipB4" by simp
  from h3 have "pos_finite (duration clipA0)" "pos_finite (duration clipB4)" by simp_all
  with h1 h2 neg nan show ?thesis by simp
qed


lemmas render_defs =
  renderFrame_def clearSurface_def emit_def drawSelected_def drawMedia_def drawFitted_def
  letterbox_def transitionProgress_def seekVideo_def safeTime_def reportedDuration_def
  applyTransitionOverlay_def TRANSITION_DURATION_def CANVAS_WIDTH_def CANVAS_HEIGHT_def
  Math_max_def Math_min_def js_or_def truthy_def Let_def

lemmas example_defs =
  exampleCache_def imageOnlyCache_def assetM1_def assetM2_def exampleState_def
  paintedState_def exampleHeap_def

text \<open>
  The claim as stated fails on the two example clips at the timestamp \<open>-1\<close>: timestamp \<open>0\<close>
  selects the first clip and draws the image, timestamp \<open>-1\<close> selects the second clip and
  draws the video.
\<close>

theorem renderFrame_negative_counterexample:
  "js_lt (Fin (- 1)) (Fin 0)
   \<and> normalized [clipA0, clipB4]
   \<and> currentClip [clipA0, clipB4] (Fin 0) = Some clipA0
   \<and> currentClip [clipA0, clipB4] (Fin (- 1)) = Some clipB4
   \<and> clipB4 \<noteq> clipA0
   \<and> renderFrame exampleCache [assetM1, assetM2] [clipA0, clipB4] (Fin (- 1)) exampleState
       \<noteq> renderFrame exampleCache [assetM1, assetM2] [clipA0, clipB4] (Fin 0) exampleState"
proof -
  let ?E = "[clipA0, clipB4]"
  have c0: "currentClip ?E (Fin 0) = Some clipA0"
    by (simp add: currentClip_def safeIndex_def currentIndex_def clipContains_def js_nth_def
        example_clips_simps)
  have c1: "currentClip ?E (Fin (- 1)) = Some clipB4"
    by (simp add: currentClip_def safeIndex_def currentIndex_def clipContains_def js_nth_def
        example_clips_simps)
  have p0: "previousClip ?E (Fin 0) = None"
    by (simp add: previousClip_def safeIndex_def currentIndex_def clipContains_def js_nth_def
        example_clips_simps)
  have p1: "previousClip ?E (Fin (- 1)) = Some clipA0"
    by (simp add: previousClip_def safeIndex_def currentIndex_def clipContains_def js_nth_def
        example_clips_simps)
  have ne: "clipB4 \<noteq> clipA0" by (simp add: clipA0_def clipB4_def clipA_def clipB_def)
  have r0: "renderFrame exampleCache [assetM1, assetM2] ?E (Fin 0) exampleState =
     Inr \<lparr>ops = [SetFillStyle (Colour ''#050814''),
                 FillRect (Fin 0) (Fin 0) (Fin 1280) (Fin 720), Save, SetGlobalAlpha (Fin 1),
                 DrawImage 1 (Fin 0) (Fin 0) (Fin 1280) (Fin 720), Restore, Save,
                 SetFillStyle (Rgba 0 0 0 (Fin 1)),
                 FillRect (Fin 0) (Fin 0) (Fin 1280) (Fin 720), Restore],
           heap = exampleHeap\<rparr>"
    by (simp add: c0 p0 render_defs example_defs example_clips_simps)
  have r1: "renderFrame exampleCache [assetM1, assetM2] ?E (Fin (- 1)) exampleState =
     Inr \<lparr>ops = [SetFillStyle (Colour ''#050814''),
                 FillRect (Fin 0) (Fin 0) (Fin 1280) (Fin 720), Save, SetGlobalAlpha (Fin 1),
                 DrawImage 2 (Fin 0) (Fin 0) (Fin 1280) (Fin 720), Restore],
           heap = exampleHeap\<rparr>"
    by (simp add: c1 p1 render_defs example_defs example_clips_simps)
  have "normalized ?E" by (simp add: normalized_def example_clips_simps)
  with c0 c1 ne r0 r1 show ?thesis by simp
qed

text \<open>
  Claim C4, as amended.  When the element of the selected clip's media is absent from the
  media cache, \<open>renderFrame\<close> does not fail, draws no media and no overlay and seeks no
  video; but it has cleared the surface first: its only calls are the fill of the whole
  1280\<times>720 surface with the background colour \<open>#050814\<close>, so the previous frame does
  not stay on screen.
\<close>

theorem renderFrame_missing_handle:
  assumes "currentClip clips time = Some clip" and "mediaCache (mediaId clip) = None"
  shows "renderFrame mediaCache library clips time st =
           Inr (st\<lparr>ops := ops st @ [SetFillStyle (Colour ''#050814''),
                                      FillRect (Fin 0) (Fin 0) (Fin 1280) (Fin 720)]\<rparr>)"
  using assms
  by (simp add: renderFrame_def drawSelected_def clearSurface_def emit_def
      CANVAS_WIDTH_def CANVAS_HEIGHT_def Let_def)

theorem renderFrame_missing_handle_witness:
  "currentClip [clipA0, clipB4] (Fin 5) = Some clipB4
   \<and> imageOnlyCache (mediaId clipB4) = None
   \<and> renderFrame imageOnlyCache [assetM1, assetM2] [clipA0, clipB4] (Fin 5) exampleState =
       Inr \<lparr>ops = [SetFillStyle (Colour ''#050814''),
                   FillRect (Fin 0) (Fin 0) (Fin 1280) (Fin 720)],
             heap = exampleHeap\<rparr>"
proof -
  have c: "currentClip [clipA0, clipB4] (Fin 5) = Some clipB4"
    by (simp add: currentClip_def safeIndex_def currentIndex_def clipContains_def js_nth_def
        example_clips_simps)
  have m: "imageOnlyCache (mediaId clipB4) = None"
    by (simp add: imageOnlyCache_def example_clips_simps)
  from renderFrame_missing_handle [where mediaCache = imageOnlyCache and clip = clipB4
      and library = "[assetM1, assetM2]" and st = exampleState, OF c m] c m
  show ?thesis by (simp add: exampleState_def)
qed

text \<open>
  The claim as stated fails on a surface that shows a frame of the image when the video
  of the second clip is not in the cache yet: the render at timestamp \<open>5\<close> fills the whole
  surface, on top of the frame drawn before.
\<close>

theorem renderFrame_missing_handle_counterexample:
  "currentClip [clipA0, clipB4] (Fin 5) = Some clipB4
   \<and> imageOnlyCache (mediaId clipB4) = None
   \<and> renderFrame imageOnlyCache [assetM1, assetM2] [clipA0, clipB4] (Fin 5) paintedState =
       Inr \<lparr>ops = [Save, SetGlobalAlpha (Fin 1),
                   DrawImage 1 (Fin 0) (Fin 0) (Fin 1280) (Fin 720), Restore,
                   SetFillStyle (Colour ''#050814''),
                   FillRect (Fin 0) (Fin 0) (Fin 1280) (Fin 720)],
             heap = exampleHeap\<rparr>
   \<and> renderFrame imageOnlyCache [assetM1, assetM2] [clipA0, clipB4] (Fin 5) paintedState
       \<noteq> Inr paintedState"
proof -
  have c: "currentClip [clipA0, clipB4] (Fin 5) = Some clipB4"
    by (simp add: currentClip_def safeIndex_def currentIndex_def clipContains_def js_nth_def
        example_clips_simps)
  have m: "imageOnlyCache (mediaId clipB4) = None"
    by (simp add: imageOnlyCache_def example_clips_simps)
  have r: "renderFrame imageOnlyCache [assetM1, assetM2] [clipA0, clipB4] (Fin 5) paintedState =
       Inr \<lparr>ops = [Save, SetGlobalAlpha (Fin 1),
                   DrawImage 1 (Fin 0) (Fin 0) (Fin 1280) (Fin 720), Restore,
                   SetFillStyle (Colour ''#050814''),
                   FillRect (Fin 0) (Fin 0) (Fin 1280) (Fin 720)],
             heap = exampleHeap\<rparr>"
    by (simp add: c m render_defs paintedState_def)
  from c m r show ?thesis by (simp add: paintedState_def)
qed

section \<open>Properties of the rounding to a double\<close>

lemma bitlen_num [simp]:
  "bitlen (numeral n) = bitlen (numeral n div 2) + 1" "bitlen 1 = 1"
  by (subst compute_bitlen, simp)+

lemma powi_neg: "0 \<le> c \<Longrightarrow> (2::real) powi (- c) = 1 / 2 ^ nat c"
  by (cases "c = 0") (simp_all add: power_int_def field_simps)

lemma powi_pos: "0 \<le> c \<Longrightarrow> (2::real) powi c = 2 ^ nat c"
  by (simp add: power_int_def)

text \<open>\<open>ilog2\<close> is the binary exponent: \<open>2\<^sup>k \<le> x < 2\<^sup>k\<^sup>+\<^sup>1\<close>.\<close>

lemma ilog2_bounds:
  assumes "0 < x"
  shows "2 powi (ilog2 x) \<le> x \<and> x < 2 powi (ilog2 x + 1)"
proof (cases "1 \<le> x")
  case True
  define n where "n = \<lfloor>x\<rfloor>"
  have n: "0 < n" "real_of_int n \<le> x" "x < real_of_int n + 1" using True by (auto simp: n_def)
  have b: "1 \<le> bitlen n" using n(1) by (simp add: bitlen_alt_def)
  from bitlen_bounds [OF n(1)] have lo: "2 ^ nat (bitlen n - 1) \<le> n" and hi: "n < 2 ^ nat (bitlen n)"
    by simp_all
  from hi have "n + 1 \<le> 2 ^ nat (bitlen n)" by simp
  then have "real_of_int (n + 1) \<le> real_of_int (2 ^ nat (bitlen n))" by (simp only: of_int_le_iff)
  then have hi': "real_of_int n + 1 \<le> 2 ^ nat (bitlen n)" by simp
  from lo have "real_of_int (2 ^ nat (bitlen n - 1)) \<le> real_of_int n" by (simp only: of_int_le_iff)
  then have lo': "(2::real) ^ nat (bitlen n - 1) \<le> real_of_int n" by simp
  have k: "ilog2 x = bitlen n - 1" using True by (simp add: ilog2_def n_def)
  have p1: "(2::real) powi (bitlen n - 1) = 2 ^ nat (bitlen n - 1)" using b by (simp add: power_int_def)
  have p2: "(2::real) powi (bitlen n - 1 + 1) = 2 ^ nat (bitlen n)" using b by (simp add: power_int_def)
  show ?thesis unfolding k p1 p2 using lo' hi' n by linarith
next
  case False
  define m where "m = \<lceil>1 / x\<rceil>"
  from False assms have x1: "1 < 1 / x" by simp
  then have m2: "2 \<le> m" unfolding m_def by linarith
  have mx: "real_of_int m - 1 < 1 / x" "1 / x \<le> real_of_int m" unfolding m_def by linarith+
  define b where "b = bitlen (m - 1)"
  have m1: "0 < m - 1" using m2 by simp
  have b1: "1 \<le> b" using m1 by (simp add: b_def bitlen_alt_def)
  from bitlen_bounds [OF m1] have lo: "2 ^ nat (b - 1) \<le> m - 1" and hi: "m - 1 < 2 ^ nat b"
    by (simp_all add: b_def)
  from hi have "m \<le> 2 ^ nat b" by simp
  then have "real_of_int m \<le> real_of_int (2 ^ nat b)" by (simp only: of_int_le_iff)
  then have hi': "real_of_int m \<le> 2 ^ nat b" by simp
  from lo have "real_of_int (2 ^ nat (b - 1)) \<le> real_of_int (m - 1)" by (simp only: of_int_le_iff)
  then have lo': "(2::real) ^ nat (b - 1) \<le> real_of_int m - 1" by simp
  have k: "ilog2 x = - b" using False by (simp add: ilog2_def m_def b_def)
  have p1: "(2::real) powi (- b) = 1 / 2 ^ nat b" using b1 by (simp add: powi_neg)
  have p2: "(2::real) powi (- b + 1) = 1 / 2 ^ nat (b - 1)"
  proof -
    have "- b + 1 = - (b - 1)" by simp
    moreover have "(2::real) powi (- (b - 1)) = 1 / 2 ^ nat (b - 1)"
      using b1 by (intro powi_neg) simp
    ultimately show ?thesis by simp
  qed
  have a: "1 / x \<le> 2 ^ nat b" using mx hi' by linarith
  have c: "(2::real) ^ nat (b - 1) < 1 / x" using mx lo' by linarith
  have "1 / 2 ^ nat b \<le> x" using a assms by (simp add: field_simps)
  moreover have "x < 1 / 2 ^ nat (b - 1)" using c assms by (simp add: field_simps)
  ultimately show ?thesis unfolding k p1 p2 by simp
qed

lemma rne_close: "\<bar>real_of_int (rne y) - y\<bar> \<le> 1 / 2"
  unfolding rne_def Let_def by (auto simp: abs_le_iff)

lemma rne_ge: "real_of_int n \<le> y \<Longrightarrow> n \<le> rne y"
proof -
  assume "real_of_int n \<le> y"
  then have "n \<le> \<lfloor>y\<rfloor>" by (simp add: le_floor_iff)
  then show ?thesis unfolding rne_def Let_def by auto
qed

lemma rne_le: "y \<le> real_of_int n \<Longrightarrow> rne y \<le> n"
proof -
  assume a: "y \<le> real_of_int n"
  show ?thesis
  proof (cases "y = real_of_int n")
    case True
    then show ?thesis by (simp add: rne_def Let_def)
  next
    case False
    with a have "y < real_of_int n" by simp
    then have "\<lfloor>y\<rfloor> < n" by (simp add: floor_less_iff)
    then show ?thesis unfolding rne_def Let_def by auto
  qed
qed

lemma powi_exp_less:
  assumes "(2::real) powi k \<le> y" and "y < 2 powi j"
  shows "k < j"
proof (rule ccontr)
  assume "\<not> k < j"
  then have "j \<le> k" by simp
  then have "(2::real) powi j \<le> 2 powi k" by (intro power_int_increasing) simp_all
  with assms show False by linarith
qed

text \<open>
  The rounding error: half a unit in the last place, that is \<open>2\<^sup>j\<^sup>-\<^sup>5\<^sup>4\<close> below \<open>2\<^sup>j\<close>.
\<close>

lemma double_round_error:
  assumes "\<bar>x\<bar> < 2 powi j" and "- 1021 \<le> j"
  shows "\<bar>double_round x - x\<bar> \<le> 2 powi (j - 54)"
proof (cases "x = 0")
  case True
  then show ?thesis by (simp add: double_round_def)
next
  case False
  define k where "k = ilog2 \<bar>x\<bar>"
  define e where "e = max (k - 52) (- 1074)"
  define y where "y = x / 2 powi e"
  from False have "0 < \<bar>x\<bar>" by simp
  from ilog2_bounds [OF this] have "2 powi k \<le> \<bar>x\<bar>" by (simp add: k_def)
  from powi_exp_less [OF this assms(1)] have "k < j" .
  with assms(2) have ej: "e \<le> j - 53" by (simp add: e_def)
  have pe: "(0::real) < 2 powi e" by simp
  have dr: "double_round x = real_of_int (rne y) * 2 powi e"
    using False by (simp add: double_round_def Let_def k_def e_def y_def)
  have xy: "x = y * 2 powi e" by (simp add: y_def)
  have "real_of_int (rne y) * 2 powi e - y * 2 powi e = (real_of_int (rne y) - y) * 2 powi e"
    by (simp add: algebra_simps)
  with dr xy have "double_round x - x = (real_of_int (rne y) - y) * 2 powi e"
    by simp
  then have "\<bar>double_round x - x\<bar> = \<bar>real_of_int (rne y) - y\<bar> * 2 powi e"
    by (simp add: abs_mult)
  also have "\<dots> \<le> 1 / 2 * 2 powi e"
    using rne_close [of y] pe by (intro mult_right_mono) simp_all
  also have "\<dots> = 2 powi (e - 1)" by (simp add: power_int_diff)
  also have "\<dots> \<le> 2 powi (j - 54)" using ej by (intro power_int_increasing) simp_all
  finally show ?thesis .
qed

lemma double_round_nonpos: "x \<le> 0 \<Longrightarrow> double_round x \<le> 0"
proof -
  assume a: "x \<le> 0"
  have "rne (x / 2 powi e) \<le> 0" for e
    using a by (intro rne_le) (simp add: divide_nonpos_pos)
  then show ?thesis
    by (simp add: double_round_def Let_def mult_nonpos_nonneg)
qed

lemma double_round_nonneg: "0 \<le> x \<Longrightarrow> 0 \<le> double_round x"
proof -
  assume a: "0 \<le> x"
  have "0 \<le> rne (x / 2 powi e)" for e
    using a by (intro rne_ge) simp
  then show ?thesis
    by (simp add: double_round_def Let_def)
qed

lemma double_round_ge_one:
  assumes "1 \<le> x"
  shows "1 \<le> double_round x"
proof -
  define k where "k = ilog2 \<bar>x\<bar>"
  define e where "e = max (k - 52) (- 1074)"
  from assms have x0: "0 < \<bar>x\<bar>" "\<bar>x\<bar> = x" "x \<noteq> 0" by simp_all
  from ilog2_bounds [OF x0(1)] have kb: "2 powi k \<le> x" "x < 2 powi (k + 1)"
    by (simp_all add: k_def x0(2))
  have "(2::real) powi 0 \<le> x" using assms by simp
  from powi_exp_less [OF this kb(2)] have k0: "0 \<le> k" by simp
  then have ek: "e = k - 52" by (simp add: e_def)
  have dr: "double_round x = real_of_int (rne (x / 2 powi e)) * 2 powi e"
    using x0(3) by (simp add: double_round_def Let_def k_def e_def)
  show ?thesis
  proof (cases "e \<le> 0")
    case True
    have p: "(2::real) powi e = 1 / 2 ^ nat (- e)" using powi_neg [of "- e"] True by simp
    have "real_of_int (2 ^ nat (- e)) \<le> x / 2 powi e"
      using assms by (simp add: p)
    from rne_ge [OF this] have "(2::real) ^ nat (- e) \<le> real_of_int (rne (x / 2 powi e))"
      by (metis of_int_le_iff of_int_numeral of_int_power)
    then show ?thesis unfolding dr p by (simp add: field_simps)
  next
    case False
    then have e0: "0 < e" by simp
    have "(2::real) powi 52 \<le> x / 2 powi e"
    proof -
      have "(2::real) powi 52 = 2 powi k / 2 powi e" unfolding ek by (simp add: power_int_diff)
      also have "\<dots> \<le> x / 2 powi e" using kb(1) by (intro divide_right_mono) simp_all
      finally show ?thesis .
    qed
    then have "real_of_int (2 ^ 52) \<le> x / 2 powi e" by simp
    from rne_ge [OF this] have "(1::int) \<le> rne (x / 2 powi e)" by simp
    then have r1: "(1::real) \<le> real_of_int (rne (x / 2 powi e))" by simp
    have "(2::real) powi 0 \<le> 2 powi e" using e0 by (intro power_int_increasing) simp_all
    then have e1: "(1::real) \<le> 2 powi e" by simp
    from r1 e1 have "1 * 1 \<le> real_of_int (rne (x / 2 powi e)) * 2 powi e"
      by (intro mult_mono) simp_all
    then show ?thesis unfolding dr by simp
  qed
qed

text \<open>No overflow below \<open>2\<^sup>1\<^sup>0\<^sup>2\<^sup>3\<close>.\<close>

lemma fl_finite:
  assumes "\<bar>x\<bar> < 2 powi j" and "- 1021 \<le> j" and "j \<le> 1023"
  shows "fl x = Fin (double_round x)"
proof -
  from double_round_error [OF assms(1,2)] have "\<bar>double_round x - x\<bar> \<le> 2 powi (j - 54)" .
  moreover have "(2::real) powi (j - 54) \<le> 2 powi j" by (intro power_int_increasing) simp_all
  ultimately have "\<bar>double_round x\<bar> < 2 powi j + 2 powi j" using assms(1) by linarith
  moreover have "(2::real) powi j \<le> 2 powi 1023" using assms(3) by (intro power_int_increasing) simp_all
  ultimately have "\<bar>double_round x\<bar> < 2 powi 1023 + 2 powi 1023" by linarith
  also have "\<dots> = (2::real) ^ 1024" by simp
  finally show ?thesis by (simp add: fl_def Let_def abs_less_iff)
qed

section \<open>Properties of the advisory and of the export guard\<close>

lemma map_duration_normalize_from: "map duration (normalize_from c cs) = map duration cs"
  by (induction cs arbitrary: c) simp_all

lemmas double_defs = fl_def double_round_def ilog2_def rne_def Let_def power_int_minus
  fl_add_def fl_sub_def fl_mul_def

text \<open>
  The rounded sum of \<open>n\<close> durations that are not negative is within \<open>n / 2\<^sup>3\<^sup>3\<close> of the
  exact sum, for sums up to \<open>2\<^sup>2\<^sup>0\<close> seconds.
\<close>

lemma fl_sum_error:
  assumes "map duration cs = map Fin ds" and "\<forall>d \<in> set ds. 0 \<le> d" and "0 \<le> r"
    and "r + sum_list ds + real (length ds) / 2 ^ 33 \<le> 2 ^ 20"
  shows "\<exists>T. foldl (\<lambda>total clip. fl_add total (duration clip)) (Fin r) cs = Fin T
           \<and> 0 \<le> T \<and> \<bar>T - (r + sum_list ds)\<bar> \<le> real (length ds) / 2 ^ 33"
  using assms
proof (induction cs arbitrary: r ds)
  case Nil
  then show ?case by simp
next
  case (Cons c cs)
  from Cons.prems(1) obtain d ds' where ds: "ds = d # ds'" "duration c = Fin d"
    "map duration cs = map Fin ds'"
    by (cases ds) auto
  from Cons.prems(2) ds(1) have d0: "0 \<le> d" and ds0: "\<forall>d \<in> set ds'. 0 \<le> d" by simp_all
  from ds0 have s0: "0 \<le> sum_list ds'" by (simp add: sum_list_nonneg)
  define r' where "r' = double_round (r + d)"
  from Cons.prems(4) ds(1)
  have p4: "r + d + sum_list ds' + (real (length ds') / 2 ^ 33 + 1 / 2 ^ 33) \<le> 2 ^ 20"
    by (simp add: add_divide_distrib algebra_simps)
  have n0: "0 \<le> real (length ds') / 2 ^ 33" by simp
  have e0: "(0::real) \<le> 1 / 2 ^ 33" by simp
  have rd: "0 \<le> r + d" "r + d \<le> 2 ^ 20"
    using Cons.prems(3) d0 s0 p4 n0 e0 by linarith+
  then have lt: "\<bar>r + d\<bar> < 2 powi 21" by simp
  have step: "fl_add (Fin r) (Fin d) = Fin r'"
    unfolding fl_add_def r'_def using fl_finite [OF lt] by simp
  from double_round_error [OF lt] have err: "\<bar>r' - (r + d)\<bar> \<le> 1 / 2 ^ 33"
    by (simp add: r'_def power_int_minus_divide)
  have r0: "0 \<le> r'" unfolding r'_def using rd(1) by (rule double_round_nonneg)
  have bound: "r' + sum_list ds' + real (length ds') / 2 ^ 33 \<le> 2 ^ 20"
    using err p4 by linarith
  from Cons.IH [OF ds(3) ds0 r0 bound] obtain T where
    T: "foldl (\<lambda>total clip. fl_add total (duration clip)) (Fin r') cs = Fin T" "0 \<le> T"
       "\<bar>T - (r' + sum_list ds')\<bar> \<le> real (length ds') / 2 ^ 33" by blast
  have "real (length ds) / 2 ^ 33 = real (length ds') / 2 ^ 33 + 1 / 2 ^ 33"
    by (simp add: ds(1) add_divide_distrib)
  moreover have "sum_list ds = d + sum_list ds'" by (simp add: ds(1))
  ultimately have "\<bar>T - (r + sum_list ds)\<bar> \<le> real (length ds) / 2 ^ 33"
    using T(3) err by linarith
  with T(1,2) step ds(2) show ?case by simp
qed

text \<open>Normalization does not change the durations that are summed.\<close>

lemma compositionDuration64_normalize:
  "compositionDuration64 (normalizeTimeline clips) = foldl fl_add (Fin 0) (map duration clips)"
proof -
  have aux: "foldl (\<lambda>total clip. fl_add total (duration clip)) z cs =
        foldl fl_add z (map duration cs)" for z cs
    by (induction cs arbitrary: z) simp_all
  show ?thesis
    by (simp add: compositionDuration64_def normalizeTimeline_def aux map_duration_normalize_from)
qed

text \<open>
  Claim C5, as amended.  With an active audio track of duration \<open>A\<close> (\<open>durationSeconds\<close>, or
  the estimate when that is zero or NaN) and \<open>n\<close> clips whose durations sum to \<open>T\<close>, the
  advisory fires if and only if the difference computed in double arithmetic exceeds the
  double \<open>0.8\<close>: the durations are summed from left to right, every sum rounded, and the
  rounded difference from \<open>A\<close> is compared.  For durations that are not negative and
  \<open>A\<close>, \<open>T\<close> up to \<open>2\<^sup>2\<^sup>0\<close> seconds this agrees with \<open>|A - T| > 0.8\<close> outside a margin of
  \<open>(n + 2) / 2\<^sup>3\<^sup>3\<close> around \<open>0.8\<close>: the advisory fires when \<open>|A - T|\<close> is above the margin
  and does not fire when it is below; inside the margin the rounding decides.
\<close>

theorem durationMismatch_up_to_rounding:
  assumes "activeAudio auds active = Some audio"
    and "js_or (durationSeconds audio) (durationEstimateSeconds audio) = Fin A"
    and "map duration clips = map Fin ds"
    and "\<forall>d \<in> set ds. 0 \<le> d"
    and "0 \<le> A" and "A \<le> 2 ^ 20"
    and "sum_list ds + real (length ds) / 2 ^ 33 \<le> 2 ^ 20"
  shows "(durationMismatch auds active clips \<longleftrightarrow>
            js_gt (Math_abs (fl_sub (Fin A) (foldl fl_add (Fin 0) (map duration clips))))
                  (fl (8 / 10)))
       \<and> (8 / 10 + (real (length ds) + 2) / 2 ^ 33 < \<bar>A - sum_list ds\<bar> \<longrightarrow>
            durationMismatch auds active clips)
       \<and> (durationMismatch auds active clips \<longrightarrow>
            8 / 10 - (real (length ds) + 2) / 2 ^ 33 < \<bar>A - sum_list ds\<bar>)"
proof -
  let ?n = "real (length ds)"
  have dm: "durationMismatch auds active clips \<longleftrightarrow>
            js_gt (Math_abs (fl_sub (Fin A) (compositionDuration64 (normalizeTimeline clips))))
                  (fl (8 / 10))"
    using assms(1,2) by (simp add: durationMismatch_def)
  have md: "map duration (normalizeTimeline clips) = map Fin ds"
    using assms(3) by (simp add: normalizeTimeline_def map_duration_normalize_from)
  from fl_sum_error [OF md assms(4), of 0] assms(7) obtain T where
    T: "compositionDuration64 (normalizeTimeline clips) = Fin T" "0 \<le> T"
       "\<bar>T - sum_list ds\<bar> \<le> ?n / 2 ^ 33"
    unfolding compositionDuration64_def by auto
  define y where "y = A - T"
  have "T \<le> 2 ^ 20" using T(3) assms(7) by linarith
  with T(2) assms(5,6) have "\<bar>y\<bar> \<le> 2 ^ 20" unfolding y_def by linarith
  then have lt: "\<bar>y\<bar> < 2 powi 21" by simp
  have sub: "fl_sub (Fin A) (Fin T) = Fin (double_round y)"
    unfolding fl_sub_def y_def [symmetric] using fl_finite [OF lt] by (simp add: y_def)
  from double_round_error [OF lt] have ey: "\<bar>double_round y - y\<bar> \<le> 1 / 2 ^ 33"
    by (simp add: power_int_minus_divide)
  have l8: "\<bar>(8 / 10 :: real)\<bar> < 2 powi 0" by simp
  have c: "fl (8 / 10) = Fin (double_round (8 / 10))" using fl_finite [OF l8] by simp
  from double_round_error [OF l8] have ec: "\<bar>double_round (8 / 10) - 8 / 10\<bar> \<le> 1 / 2 ^ 54"
    by (simp add: power_int_minus_divide)
  have "(1::real) / 2 ^ 54 \<le> 1 / 2 ^ 33" by simp
  with ec have ec': "\<bar>double_round (8 / 10) - 8 / 10\<bar> \<le> 1 / 2 ^ 33" by linarith
  have fires: "durationMismatch auds active clips \<longleftrightarrow> double_round (8 / 10) < \<bar>double_round y\<bar>"
    unfolding dm T(1) sub c by simp
  have close: "\<bar>\<bar>double_round y\<bar> - \<bar>A - sum_list ds\<bar>\<bar> \<le> (?n + 1) / 2 ^ 33"
  proof -
    have "\<bar>\<bar>double_round y\<bar> - \<bar>A - sum_list ds\<bar>\<bar> \<le> \<bar>double_round y - (A - sum_list ds)\<bar>"
      by (rule abs_triangle_ineq3)
    also have "\<dots> \<le> \<bar>double_round y - y\<bar> + \<bar>T - sum_list ds\<bar>"
      unfolding y_def by linarith
    also have "\<dots> \<le> 1 / 2 ^ 33 + ?n / 2 ^ 33" using ey T(3) by linarith
    also have "\<dots> = (?n + 1) / 2 ^ 33" by (simp add: field_simps)
    finally show ?thesis .
  qed
  have two: "(?n + 1) / 2 ^ 33 + 1 / 2 ^ 33 = (?n + 2) / 2 ^ 33" by (simp add: field_simps)
  have up: "durationMismatch auds active clips"
    if "8 / 10 + (?n + 2) / 2 ^ 33 < \<bar>A - sum_list ds\<bar>"
    unfolding fires using that close ec' two by linarith
  have down: "8 / 10 - (?n + 2) / 2 ^ 33 < \<bar>A - sum_list ds\<bar>"
    if "durationMismatch auds active clips"
    using that [unfolded fires] close ec' two by linarith
  from dm up down show ?thesis unfolding compositionDuration64_normalize by blast
qed

text \<open>
  The claim as stated fails for an audio of \<open>7.5\<close> seconds and clips of \<open>5.8\<close> and \<open>2.5\<close>
  seconds, as the duration sliders give them: the sum is rounded up to the double \<open>8.3\<close>,
  the difference \<open>0.8000000000000007\<close> exceeds the double \<open>0.8\<close> and the advisory fires,
  while \<open>|A - T|\<close> is not above \<open>0.8\<close>, neither for the doubles nor for the decimals.
\<close>

theorem durationMismatch_counterexample:
  "fl (58 / 10) = duration clip58
   \<and> fl (25 / 10) = duration clip25
   \<and> js_or (durationSeconds exampleAudio) (durationEstimateSeconds exampleAudio) = Fin (75 / 10)
   \<and> durationMismatch [exampleAudio] (Some ''au1'') [clip58, clip25]
   \<and> \<not> (8 / 10 :: real) < \<bar>75 / 10 - (6530219459687219 / 2 ^ 50 + 25 / 10)\<bar>
   \<and> \<not> (8 / 10 :: real) < \<bar>75 / 10 - (58 / 10 + 25 / 10)\<bar>"
  by (simp add: durationMismatch_def activeAudio_def exampleAudio_def js_or_def truthy_def
      compositionDuration64_def normalizeTimeline_def clip58_def clip25_def double_defs)

theorem durationMismatch_up_to_rounding_witness:
  "activeAudio [exampleAudio] (Some ''au1'') = Some exampleAudio
   \<and> js_or (durationSeconds exampleAudio) (durationEstimateSeconds exampleAudio) = Fin (75 / 10)
   \<and> map duration [clipA] = map Fin [4]
   \<and> (0::real) \<le> 4 \<and> (0::real) \<le> 75 / 10 \<and> (75 / 10 :: real) \<le> 2 ^ 20
   \<and> sum_list [4] + real (length [4::real]) / 2 ^ 33 \<le> 2 ^ 20
   \<and> 8 / 10 + (real (length [4::real]) + 2) / 2 ^ 33 < \<bar>75 / 10 - sum_list [4]\<bar>
   \<and> durationMismatch [exampleAudio] (Some ''au1'') [clipA]
   \<and> map duration [clipA, clipB] = map Fin [4, 3]
   \<and> \<not> durationMismatch [exampleAudio] (Some ''au1'') [clipA, clipB]"
proof -
  have a: "activeAudio [exampleAudio] (Some ''au1'') = Some exampleAudio"
    by (simp add: activeAudio_def exampleAudio_def)
  have d: "js_or (durationSeconds exampleAudio) (durationEstimateSeconds exampleAudio) = Fin (75 / 10)"
    by (simp add: js_or_def truthy_def exampleAudio_def)
  have m1: "map duration [clipA] = map Fin [4]" by (simp add: clipA_def)
  have m2: "map duration [clipA, clipB] = map Fin [4, 3]" by (simp add: clipA_def clipB_def)
  have n1: "\<forall>d \<in> set [4::real]. 0 \<le> d" by simp
  have n2: "\<forall>d \<in> set [4, 3::real]. 0 \<le> d" by simp
  have b: "(0::real) \<le> 75 / 10" "(75 / 10 :: real) \<le> 2 ^ 20" by simp_all
  have s1: "sum_list [4] + real (length [4::real]) / 2 ^ 33 \<le> 2 ^ 20" by simp
  have s2: "sum_list [4, 3] + real (length [4, 3::real]) / 2 ^ 33 \<le> 2 ^ 20" by simp
  have far: "8 / 10 + (real (length [4::real]) + 2) / 2 ^ 33 < \<bar>75 / 10 - sum_list [4]\<bar>" by simp
  from durationMismatch_up_to_rounding [OF a d m1 n1 b s1] far
  have y: "durationMismatch [exampleAudio] (Some ''au1'') [clipA]" by blast
  have near: "\<not> 8 / 10 - (real (length [4, 3::real]) + 2) / 2 ^ 33 < \<bar>75 / 10 - sum_list [4, 3]\<bar>"
    by simp
  from durationMismatch_up_to_rounding [OF a d m2 n2 b s2] near
  have n: "\<not> durationMismatch [exampleAudio] (Some ''au1'') [clipA, clipB]" by blast
  from a d m1 b s1 far y m2 n show ?thesis by simp
qed

text \<open>
  \<open>activeAudio\<close> falls back to the first audio, so it is undefined exactly when the store
  holds no audio.
\<close>

lemma activeAudio_None_iff: "activeAudio auds active = None \<longleftrightarrow> auds = []"
  by (cases auds) (auto simp: activeAudio_def split: option.splits)

text \<open>
  Claim C6.  When the timeline is empty or there is no active audio track, \<open>handleExport\<close>
  returns at its first guard: the composer is unchanged, so no capture stream is opened,
  no recorder is created and the player state is as before.
\<close>

theorem handleExport_noop:
  assumes "timeline (appState c) = []
         \<or> activeAudio (audios (appState c)) (activeAudioId (appState c)) = None"
  shows "handleExport c = c
       \<and> effects (handleExport c) = effects c
       \<and> playerState (handleExport c) = playerState c"
  using assms by (auto simp: handleExport_def)

theorem handleExport_noop_witness:
  "timeline (appState exampleComposer) = []
   \<and> handleExport exampleComposer = exampleComposer
   \<and> effects (handleExport exampleComposer) = []
   \<and> playerState (handleExport exampleComposer) =
       \<lparr>isPlaying = False, isExporting = False, currentTime = Fin 0\<rparr>
   \<and> activeAudio (audios (appState silentComposer)) (activeAudioId (appState silentComposer)) = None
   \<and> handleExport silentComposer = silentComposer
   \<and> effects (handleExport silentComposer) = []"
proof -
  have h: "timeline (appState exampleComposer) = []" by (simp add: exampleComposer_def)
  have k: "activeAudio (audios (appState silentComposer)) (activeAudioId (appState silentComposer)) = None"
    by (simp add: silentComposer_def activeAudio_def)
  from handleExport_noop [of exampleComposer] h
  have e: "handleExport exampleComposer = exampleComposer
       \<and> effects (handleExport exampleComposer) = []
       \<and> playerState (handleExport exampleComposer) =
           \<lparr>isPlaying = False, isExporting = False, currentTime = Fin 0\<rparr>"
    by (simp add: exampleComposer_def)
  from handleExport_noop [of silentComposer] k
  have f: "handleExport silentComposer = silentComposer \<and> effects (handleExport silentComposer) = []"
    by (simp add: silentComposer_def)
  from h k e f show ?thesis by blast
qed

text \<open>With a canvas, an audio element, a clip and an audio, the export does start.\<close>

lemma handleExport_starts:
  assumes "canvasRef c" "audioRef c" "timeline (appState c) \<noteq> []" "audios (appState c) \<noteq> []"
  shows "NewMediaRecorder ''video/webm;codecs=vp9,opus'' 4000000 \<in> set (effects (handleExport c))
       \<and> CaptureStream 30 \<in> set (effects (handleExport c))
       \<and> isExporting (playerState (handleExport c)) \<and> isPlaying (playerState (handleExport c))"
  using assms by (simp add: handleExport_def activeAudio_None_iff)

section \<open>Properties of the transition overlay and of drawMedia\<close>

text \<open>Rounding to two decimals moves a number by at most half a hundredth.\<close>

lemma round_half_up_close: "\<bar>real_of_int \<lfloor>y * 100 + 1 / 2\<rfloor> / 100 - y\<bar> \<le> 1 / 200" for y :: real
proof -
  define n where "n = \<lfloor>y * 100 + 1 / 2\<rfloor>"
  have "real_of_int n \<le> y * 100 + 1 / 2" and "y * 100 + 1 / 2 < real_of_int n + 1"
    unfolding n_def by linarith+
  then have "\<bar>real_of_int n / 100 - y\<bar> \<le> 1 / 200" by linarith
  then show ?thesis unfolding n_def .
qed

text \<open>
  Claim C7, as amended.  For every progress \<open>p\<close> in \<open>[0, 1]\<close> the white-flash overlay is one
  fill of the whole surface in white whose opacity is \<open>max(0, 1 - 2p)\<close>, computed in
  double arithmetic and rounded to two decimals by \<open>toFixed(2)\<close>: it is within
  \<open>0.005 + 2\<^sup>-\<^sup>5\<^sup>1\<close> of \<open>max(0, 1 - 2p)\<close>, not exactly that value, and it is \<open>0\<close> at
  \<open>p = 0.5\<close> and for every \<open>p \<ge> 0.5\<close>.
\<close>

theorem whiteFlash_overlay_opacity:
  assumes "0 \<le> p" and "p \<le> 1"
  shows "\<exists>a. applyTransitionOverlay WhiteFlash (Fin p) st =
          emit [Save, SetFillStyle (Rgba 255 255 255 (Fin a)),
                FillRect (Fin 0) (Fin 0) (Fin 1280) (Fin 720), Restore] st
       \<and> a = real_of_int \<lfloor>max 0 (double_round (1 - double_round (p * 2))) * 100 + 1 / 2\<rfloor> / 100
       \<and> \<bar>a - max 0 (1 - 2 * p)\<bar> \<le> 1 / 200 + 1 / 2 ^ 51
       \<and> (1 / 2 \<le> p \<longrightarrow> a = 0)"
proof -
  define q where "q = double_round (p * 2)"
  define z where "z = double_round (1 - q)"
  let ?o = "max 0 z"
  let ?a = "real_of_int \<lfloor>?o * 100 + 1 / 2\<rfloor> / 100"
  have lp: "\<bar>p * 2\<bar> < 2 powi 2" using assms by simp
  have mul: "fl_mul (Fin p) (Fin 2) = Fin q"
    unfolding fl_mul_def q_def using fl_finite [OF lp] by simp
  from double_round_error [OF lp] have eq: "\<bar>q - p * 2\<bar> \<le> 1 / 2 ^ 52"
    by (simp add: q_def power_int_minus_divide)
  have q0: "0 \<le> q" unfolding q_def using assms(1) by (intro double_round_nonneg) simp
  have e52: "(1::real) / 2 ^ 52 \<le> 1 / 2" by simp
  have "\<bar>1 - q\<bar> \<le> 1 + 1 / 2 ^ 52" using eq q0 assms by linarith
  with e52 have "\<bar>1 - q\<bar> < 2" by linarith
  then have lq: "\<bar>1 - q\<bar> < 2 powi 1" by simp
  have sub: "fl_sub (Fin 1) (Fin q) = Fin z"
    unfolding fl_sub_def z_def using fl_finite [OF lq] by simp
  from double_round_error [OF lq] have ez: "\<bar>z - (1 - q)\<bar> \<le> 1 / 2 ^ 53"
    by (simp add: z_def power_int_minus_divide)
  have op: "Math_max (Fin 0) (fl_sub (Fin 1) (fl_mul (Fin p) (Fin 2))) = Fin ?o"
    unfolding mul sub by (simp add: Math_max_def max_def)
  have "0 \<le> ?o" by simp
  then have tf: "toFixed2 (Fin ?o) = Fin ?a"
    by (simp del: max.bounded_iff add: not_less [symmetric])
  have eq1: "applyTransitionOverlay WhiteFlash (Fin p) st =
          emit [Save, SetFillStyle (Rgba 255 255 255 (Fin ?a)),
                FillRect (Fin 0) (Fin 0) (Fin 1280) (Fin 720), Restore] st"
    unfolding applyTransitionOverlay_def op Let_def tf
    by (simp add: CANVAS_WIDTH_def CANVAS_HEIGHT_def)
  have sum51: "(1::real) / 2 ^ 52 + 1 / 2 ^ 53 \<le> 1 / 2 ^ 51" by simp
  have "\<bar>z - (1 - 2 * p)\<bar> \<le> 1 / 2 ^ 51" using eq ez sum51 by linarith
  then have "\<bar>?o - max 0 (1 - 2 * p)\<bar> \<le> 1 / 2 ^ 51" by linarith
  moreover have "\<bar>?a - ?o\<bar> \<le> 1 / 200" by (rule round_half_up_close)
  ultimately have close: "\<bar>?a - max 0 (1 - 2 * p)\<bar> \<le> 1 / 200 + 1 / 2 ^ 51" by linarith
  have zero: "?a = 0" if "1 / 2 \<le> p"
  proof -
    from that have "1 \<le> p * 2" by simp
    then have "1 \<le> q" unfolding q_def by (rule double_round_ge_one)
    then have "z \<le> 0" unfolding z_def by (intro double_round_nonpos) simp
    then have "?o = 0" by simp
    then show ?thesis by simp
  qed
  have "?a = real_of_int \<lfloor>max 0 (double_round (1 - double_round (p * 2))) * 100 + 1 / 2\<rfloor> / 100"
    by (simp add: z_def q_def)
  with eq1 close zero show ?thesis by blast
qed

theorem whiteFlash_overlay_opacity_witness:
  "(0::real) \<le> 3 / 4 \<and> (3 / 4 :: real) \<le> 1 \<and> (1 / 2 :: real) \<le> 3 / 4
   \<and> applyTransitionOverlay WhiteFlash (Fin (3 / 4)) exampleState =
       emit [Save, SetFillStyle (Rgba 255 255 255 (Fin 0)),
             FillRect (Fin 0) (Fin 0) (Fin 1280) (Fin 720), Restore] exampleState"
proof -
  have h: "(0::real) \<le> 3 / 4" "(3 / 4 :: real) \<le> 1" "(1 / 2 :: real) \<le> 3 / 4" by simp_all
  from whiteFlash_overlay_opacity [OF h(1,2), of exampleState] obtain a where
    a: "applyTransitionOverlay WhiteFlash (Fin (3 / 4)) exampleState =
          emit [Save, SetFillStyle (Rgba 255 255 255 (Fin a)),
                FillRect (Fin 0) (Fin 0) (Fin 1280) (Fin 720), Restore] exampleState"
       "(1 / 2 :: real) \<le> 3 / 4 \<longrightarrow> a = 0"
    by blast
  with h show ?thesis by simp
qed

text \<open>
  The claim as stated fails at \<open>p = 33/256 = 0.12890625\<close>, where every operation is exact:
  \<open>max(0, 1 - 2p)\<close> is \<open>0.7421875\<close>, and the overlay is filled with
  \<open>rgba(255,255,255,0.74)\<close>.
\<close>

theorem whiteFlash_overlay_opacity_counterexample:
  "fl (33 / 256) = Fin (33 / 256)
   \<and> applyTransitionOverlay WhiteFlash (Fin (33 / 256)) exampleState =
       emit [Save, SetFillStyle (Rgba 255 255 255 (Fin (74 / 100))),
             FillRect (Fin 0) (Fin 0) (Fin 1280) (Fin 720), Restore] exampleState
   \<and> max 0 (1 - 2 * (33 / 256)) = (95 / 128 :: real)
   \<and> (74 / 100 :: real) \<noteq> 95 / 128"
  by (simp add: applyTransitionOverlay_def Math_max_def CANVAS_WIDTH_def CANVAS_HEIGHT_def
      double_defs)

text \<open>
  At the double nearest \<open>0.0075\<close> the opacity before the print is the double just below
  \<open>0.985\<close>, and two decimals give \<open>0.98\<close>.
\<close>

lemma whiteFlash_at_tie:
  "fl (75 / 10000) = Fin (8646911284551352 / 2 ^ 60)
   \<and> applyTransitionOverlay WhiteFlash (fl (75 / 10000)) exampleState =
       emit [Save, SetFillStyle (Rgba 255 255 255 (Fin (98 / 100))),
             FillRect (Fin 0) (Fin 0) (Fin 1280) (Fin 720), Restore] exampleState"
  by (simp add: applyTransitionOverlay_def Math_max_def CANVAS_WIDTH_def CANVAS_HEIGHT_def
      double_defs)

text \<open>The clamped seek target, when it is a number.\<close>

lemma safeTime_bounds:
  assumes "x = Math_max (Fin 0) (Math_min (Fin t) (js_sub D (Fin (5 / 100))))" and "\<not> isNaN x"
  shows "js_ge x (Fin 0) \<and> isFinite x
       \<and> (js_ge D (Fin (5 / 100)) \<longrightarrow> js_le x (js_sub D (Fin (5 / 100))) \<and> js_lt x D)
       \<and> (js_lt D (Fin (5 / 100)) \<longrightarrow> x = Fin 0)
       \<and> js_le x (Math_max (Fin 0) (js_sub D (Fin (5 / 100))))"
  using assms
  by (cases D) (auto simp: Math_max_def Math_min_def js_sub_def js_ge_def js_le_def split: if_splits)

text \<open>
  Clamping does not move the target away from a position that is itself within the
  clamping range: there, a drift to the clamped time is a drift to the local time.
\<close>

lemma clamp_drift:
  assumes x: "x = Math_max (Fin 0) (Math_min (Fin t) (js_sub D (Fin (5 / 100))))"
    and pos: "js_ge c (Fin 0)" "js_le c (Math_max (Fin 0) (js_sub D (Fin (5 / 100))))"
    and drift: "js_gt (Math_abs (js_sub c x)) (Fin (3 / 100))"
  shows "js_ge D (Fin (5 / 100)) \<and> js_le x (js_sub D (Fin (5 / 100)))
       \<and> js_gt (Math_abs (js_sub c (Fin t))) (Fin (3 / 100))"
proof (cases c)
  case (Fin cr)
  show ?thesis
  proof (cases D)
    case (Fin d)
    with x pos drift \<open>c = Fin cr\<close> show ?thesis
      by (auto simp: Math_max_def Math_min_def split: if_splits)
  next
    case NaN
    with pos show ?thesis by (simp add: Math_max_def js_sub_def js_le_def js_ge_def)
  next
    case NegInf
    with x pos drift \<open>c = Fin cr\<close> show ?thesis
      by (auto simp: Math_max_def Math_min_def js_sub_def split: if_splits)
  next
    case PosInf
    with x pos drift \<open>c = Fin cr\<close> show ?thesis
      by (auto simp: Math_max_def Math_min_def js_sub_def js_ge_def js_le_def split: if_splits)
  qed
next
  case NaN
  with pos show ?thesis by (simp add: js_ge_def)
next
  case NegInf
  with pos show ?thesis by (simp add: js_ge_def)
next
  case PosInf
  with drift x pos show ?thesis
    by (cases D)
      (auto simp: Math_max_def Math_min_def js_sub_def js_gt_def js_ge_def js_le_def
        split: if_splits)
qed

lemma drift_not_NaN: "js_gt (Math_abs (js_sub c x)) (Fin e) \<Longrightarrow> \<not> isNaN x \<and> \<not> isNaN c"
  by (cases c; cases x) (simp_all add: js_gt_def js_sub_def)

lemma el_currentTime_set: "\<not> isNaN (el_currentTime el) \<Longrightarrow> el_currentTime (set_currentTime x el) = x"
  by (cases el) simp_all

lemma seekVideo_cases:
  "seekVideo ref asset timestamp st = st
   \<or> (\<exists>t. timestamp = Fin t
          \<and> js_gt (Math_abs (js_sub (el_currentTime (heap st ref)) (safeTime timestamp asset (heap st ref))))
                  (Fin (3 / 100))
          \<and> seekVideo ref asset timestamp st =
              st\<lparr>ops := ops st @ [SetCurrentTime ref (safeTime timestamp asset (heap st ref))],
                 heap := (heap st)(ref := set_currentTime (safeTime timestamp asset (heap st ref)) (heap st ref))\<rparr>)"
  by (cases timestamp) (simp_all add: seekVideo_def Let_def)

text \<open>What a seek of \<open>drawMedia\<close> assigns, for any state of the element.\<close>

lemma drawMedia_seek_target:
  assumes "drawMedia ref media_asset timestamp alpha st = Inr st'"
    and "SetCurrentTime r x \<in> set (newOps st st')"
  shows "\<exists>asset. media_asset = Some asset \<and> kind asset = Video
           \<and> r = ref
           \<and> x = safeTime timestamp asset (heap st ref)
           \<and> js_ge x (Fin 0) \<and> isFinite x
           \<and> (js_ge (reportedDuration asset (heap st ref)) (Fin (5 / 100)) \<longrightarrow>
                js_le x (js_sub (reportedDuration asset (heap st ref)) (Fin (5 / 100)))
              \<and> js_lt x (reportedDuration asset (heap st ref)))
           \<and> (js_lt (reportedDuration asset (heap st ref)) (Fin (5 / 100)) \<longrightarrow> x = Fin 0)
           \<and> js_le x (Math_max (Fin 0) (js_sub (reportedDuration asset (heap st ref)) (Fin (5 / 100))))
           \<and> js_gt (Math_abs (js_sub (el_currentTime (heap st ref)) x)) (Fin (3 / 100))
           \<and> el_currentTime (heap st' ref) = x
           \<and> (js_ge (el_currentTime (heap st ref)) (Fin 0)
              \<and> js_le (el_currentTime (heap st ref))
                   (Math_max (Fin 0) (js_sub (reportedDuration asset (heap st ref)) (Fin (5 / 100))))
              \<longrightarrow>
                js_ge (reportedDuration asset (heap st ref)) (Fin (5 / 100))
              \<and> js_le x (js_sub (reportedDuration asset (heap st ref)) (Fin (5 / 100)))
              \<and> js_gt (Math_abs (js_sub (el_currentTime (heap st ref)) timestamp))
                   (Fin (3 / 100)))"
proof (cases media_asset)
  case None
  with assms(1) show ?thesis by (simp add: drawMedia_def Let_def)
next
  case (Some asset)
  let ?st1 = "emit [Save, SetGlobalAlpha alpha] st"
  have h1: "heap ?st1 = heap st" by (simp add: emit_def)
  show ?thesis
  proof (cases "kind asset = Video \<and> \<not> js_lt (el_readyState (heap st ref)) (Fin 2)")
    case False
    with assms Some have False
      by (auto simp: drawMedia_def Let_def emit_def newOps_def drawFitted_def
          split: if_splits prod.splits)
    then show ?thesis ..
  next
    case True
    with assms(1) Some have st': "st' = drawFitted ref asset (seekVideo ref asset timestamp ?st1)"
      by (simp add: drawMedia_def Let_def h1)
    from seekVideo_cases [of ref asset timestamp ?st1]
    show ?thesis
    proof
      assume "seekVideo ref asset timestamp ?st1 = ?st1"
      with st' assms(2) have False
        by (auto simp: emit_def newOps_def drawFitted_def split: prod.splits)
      then show ?thesis ..
    next
      assume "\<exists>t. timestamp = Fin t
          \<and> js_gt (Math_abs (js_sub (el_currentTime (heap ?st1 ref)) (safeTime timestamp asset (heap ?st1 ref))))
                  (Fin (3 / 100))
          \<and> seekVideo ref asset timestamp ?st1 =
              ?st1\<lparr>ops := ops ?st1 @ [SetCurrentTime ref (safeTime timestamp asset (heap ?st1 ref))],
                 heap := (heap ?st1)(ref := set_currentTime (safeTime timestamp asset (heap ?st1 ref)) (heap ?st1 ref))\<rparr>"
      then obtain t where t: "timestamp = Fin t"
        and drift: "js_gt (Math_abs (js_sub (el_currentTime (heap st ref)) (safeTime timestamp asset (heap st ref))))
                  (Fin (3 / 100))"
        and sk: "seekVideo ref asset timestamp ?st1 =
              ?st1\<lparr>ops := ops ?st1 @ [SetCurrentTime ref (safeTime timestamp asset (heap st ref))],
                 heap := (heap st)(ref := set_currentTime (safeTime timestamp asset (heap st ref)) (heap st ref))\<rparr>"
        unfolding h1 by blast
      let ?x = "safeTime timestamp asset (heap st ref)"
      from st' sk assms(2) have rx: "r = ref" "x = ?x"
        by (auto simp: emit_def newOps_def drawFitted_def split: prod.splits)
      from drift_not_NaN [OF drift] have nn: "\<not> isNaN ?x" "\<not> isNaN (el_currentTime (heap st ref))"
        by simp_all
      have xdef: "?x = Math_max (Fin 0) (Math_min (Fin t) (js_sub (reportedDuration asset (heap st ref)) (Fin (5 / 100))))"
        by (simp add: safeTime_def t)
      have inrange: "js_ge (reportedDuration asset (heap st ref)) (Fin (5 / 100))
          \<and> js_le ?x (js_sub (reportedDuration asset (heap st ref)) (Fin (5 / 100)))
          \<and> js_gt (Math_abs (js_sub (el_currentTime (heap st ref)) timestamp)) (Fin (3 / 100))"
        if "js_ge (el_currentTime (heap st ref)) (Fin 0)"
          and "js_le (el_currentTime (heap st ref))
                 (Math_max (Fin 0) (js_sub (reportedDuration asset (heap st ref)) (Fin (5 / 100))))"
        using clamp_drift [OF xdef that drift] unfolding t .
      from safeTime_bounds [OF xdef nn(1)]
      have b: "js_ge ?x (Fin 0) \<and> isFinite ?x
       \<and> (js_ge (reportedDuration asset (heap st ref)) (Fin (5 / 100)) \<longrightarrow>
            js_le ?x (js_sub (reportedDuration asset (heap st ref)) (Fin (5 / 100)))
          \<and> js_lt ?x (reportedDuration asset (heap st ref)))
       \<and> (js_lt (reportedDuration asset (heap st ref)) (Fin (5 / 100)) \<longrightarrow> ?x = Fin 0)
       \<and> js_le ?x (Math_max (Fin 0) (js_sub (reportedDuration asset (heap st ref)) (Fin (5 / 100))))" .
      from st' sk have "heap st' ref = set_currentTime ?x (heap st ref)"
        by (simp add: drawFitted_def emit_def split: prod.splits)
      with nn(2) have ct: "el_currentTime (heap st' ref) = ?x" by (simp add: el_currentTime_set)
      from Some True rx b drift ct inrange show ?thesis by simp
    qed
  qed
qed

lemma el_duration_set [simp]: "el_duration (set_currentTime x el) = el_duration el"
  by (cases el) simp_all

lemma reportedDuration_set [simp]:
  "reportedDuration asset (set_currentTime x el) = reportedDuration asset el"
  by (simp add: reportedDuration_def split: option.splits)

text \<open>A draw either leaves the heap as it is or seeks the drawn element, once.\<close>

lemma drawMedia_heap:
  assumes "drawMedia ref (Some asset) timestamp alpha st = Inr st'"
  shows "(heap st' = heap st \<and> (\<forall>r x. SetCurrentTime r x \<notin> set (newOps st st')))
       \<or> (\<exists>x. SetCurrentTime ref x \<in> set (newOps st st')
              \<and> heap st' = (heap st)(ref := set_currentTime x (heap st ref)))"
proof -
  let ?st1 = "emit [Save, SetGlobalAlpha alpha] st"
  have h1: "heap ?st1 = heap st" "ops ?st1 = ops st @ [Save, SetGlobalAlpha alpha]"
    by (simp_all add: emit_def)
  show ?thesis
  proof (cases "kind asset = Video \<and> \<not> js_lt (el_readyState (heap st ref)) (Fin 2)")
    case False
    with assms show ?thesis
      by (auto simp: drawMedia_def Let_def emit_def newOps_def drawFitted_def
          split: if_splits prod.splits)
  next
    case True
    with assms have st': "st' = drawFitted ref asset (seekVideo ref asset timestamp ?st1)"
      by (simp add: drawMedia_def Let_def h1)
    from seekVideo_cases [of ref asset timestamp ?st1]
    show ?thesis
    proof
      assume "seekVideo ref asset timestamp ?st1 = ?st1"
      with st' show ?thesis
        by (auto simp: emit_def newOps_def drawFitted_def split: prod.splits)
    next
      assume "\<exists>t. timestamp = Fin t
          \<and> js_gt (Math_abs (js_sub (el_currentTime (heap ?st1 ref)) (safeTime timestamp asset (heap ?st1 ref))))
                  (Fin (3 / 100))
          \<and> seekVideo ref asset timestamp ?st1 =
              ?st1\<lparr>ops := ops ?st1 @ [SetCurrentTime ref (safeTime timestamp asset (heap ?st1 ref))],
                 heap := (heap ?st1)(ref := set_currentTime (safeTime timestamp asset (heap ?st1 ref)) (heap ?st1 ref))\<rparr>"
      then have sk: "seekVideo ref asset timestamp ?st1 =
              ?st1\<lparr>ops := ops ?st1 @ [SetCurrentTime ref (safeTime timestamp asset (heap st ref))],
                 heap := (heap st)(ref := set_currentTime (safeTime timestamp asset (heap st ref)) (heap st ref))\<rparr>"
        unfolding h1(1) by blast
      have "SetCurrentTime ref (safeTime timestamp asset (heap st ref)) \<in> set (newOps st st')
          \<and> heap st' = (heap st)(ref := set_currentTime (safeTime timestamp asset (heap st ref)) (heap st ref))"
        unfolding st' sk by (simp add: emit_def newOps_def drawFitted_def split: prod.splits)
      then show ?thesis by blast
    qed
  qed
qed

text \<open>A video that has not been sought yet is in the range.\<close>

lemma fresh_video_in_range:
  "el_currentTime video = Fin 0 \<Longrightarrow> \<not> isNaN (reportedDuration asset video) \<Longrightarrow>
   positionInRange asset video"
  by (cases "reportedDuration asset video")
    (simp_all add: positionInRange_def Math_max_def js_sub_def js_le_def js_ge_def)

text \<open>
  Claim C8.  A cached video starts at position \<open>0\<close> and only \<open>drawMedia\<close> moves it, so its
  position is in \<open>[0, max(0, reportedDuration - 0.05)]\<close>.  For such a video, whenever
  \<open>drawMedia\<close> seeks it, the assigned time lies in \<open>[0, reportedDuration - 0.05]\<close>: never
  negative and strictly before the reported end; and a seek is issued only when the drift
  between the video's current position and the target local time exceeds \<open>0.03\<close>.  The
  position after the draw is in the range again, and no other element is touched.
\<close>

theorem drawMedia_seek_in_range:
  assumes dm: "drawMedia ref (Some asset) timestamp alpha st = Inr st'"
    and inv: "positionInRange asset (heap st ref)"
  shows "(\<forall>r x. SetCurrentTime r x \<in> set (newOps st st') \<longrightarrow>
            r = ref \<and> kind asset = Video
          \<and> js_ge x (Fin 0)
          \<and> js_le x (js_sub (reportedDuration asset (heap st ref)) (Fin (5 / 100)))
          \<and> js_lt x (reportedDuration asset (heap st ref))
          \<and> js_gt (Math_abs (js_sub (el_currentTime (heap st ref)) timestamp)) (Fin (3 / 100))
          \<and> el_currentTime (heap st' ref) = x)
       \<and> positionInRange asset (heap st' ref)
       \<and> (\<forall>a. a \<noteq> ref \<longrightarrow> heap st' a = heap st a)"
proof -
  let ?D = "reportedDuration asset (heap st ref)"
  have seek: "r = ref \<and> kind asset = Video \<and> js_ge x (Fin 0)
          \<and> js_le x (js_sub ?D (Fin (5 / 100))) \<and> js_lt x ?D
          \<and> js_gt (Math_abs (js_sub (el_currentTime (heap st ref)) timestamp)) (Fin (3 / 100))
          \<and> el_currentTime (heap st' ref) = x
          \<and> js_le x (Math_max (Fin 0) (js_sub ?D (Fin (5 / 100))))"
    if "SetCurrentTime r x \<in> set (newOps st st')" for r x
  proof -
    from drawMedia_seek_target [OF dm that] inv show ?thesis
      unfolding positionInRange_def by auto
  qed
  from drawMedia_heap [OF dm]
  have "positionInRange asset (heap st' ref) \<and> (\<forall>a. a \<noteq> ref \<longrightarrow> heap st' a = heap st a)"
  proof
    assume "heap st' = heap st \<and> (\<forall>r x. SetCurrentTime r x \<notin> set (newOps st st'))"
    with inv show ?thesis by simp
  next
    assume "\<exists>x. SetCurrentTime ref x \<in> set (newOps st st')
              \<and> heap st' = (heap st)(ref := set_currentTime x (heap st ref))"
    then obtain x where x: "SetCurrentTime ref x \<in> set (newOps st st')"
      "heap st' = (heap st)(ref := set_currentTime x (heap st ref))" by blast
    from seek [OF x(1)] have "el_currentTime (heap st' ref) = x" "js_ge x (Fin 0)"
      "js_le x (Math_max (Fin 0) (js_sub ?D (Fin (5 / 100))))" by simp_all
    moreover have "reportedDuration asset (heap st' ref) = ?D" by (simp add: x(2))
    ultimately have "positionInRange asset (heap st' ref)" by (simp add: positionInRange_def)
    with x(2) show ?thesis by simp
  qed
  with seek show ?thesis by blast
qed

theorem drawMedia_seek_in_range_witness:
  "drawMedia 2 (Some assetM2) (Fin 1) (Fin 1) exampleState = Inr soughtState
   \<and> positionInRange assetM2 (heap exampleState 2)
   \<and> SetCurrentTime 2 (Fin 1) \<in> set (newOps exampleState soughtState)
   \<and> kind assetM2 = Video
   \<and> js_ge (Fin 1) (Fin 0)
   \<and> js_le (Fin 1) (js_sub (reportedDuration assetM2 (heap exampleState 2)) (Fin (5 / 100)))
   \<and> js_lt (Fin 1) (reportedDuration assetM2 (heap exampleState 2))
   \<and> js_gt (Math_abs (js_sub (el_currentTime (heap exampleState 2)) (Fin 1))) (Fin (3 / 100))
   \<and> el_currentTime (heap soughtState 2) = Fin 1
   \<and> positionInRange assetM2 (heap soughtState 2)"
proof -
  have eq: "drawMedia 2 (Some assetM2) (Fin 1) (Fin 1) exampleState = Inr soughtState"
    by (simp add: render_defs example_defs soughtState_def)
  have inv: "positionInRange assetM2 (heap exampleState 2)"
    by (simp add: positionInRange_def reportedDuration_def assetM2_def exampleState_def
        exampleHeap_def Math_max_def)
  have mem: "SetCurrentTime 2 (Fin 1) \<in> set (newOps exampleState soughtState)"
    by (simp add: newOps_def exampleState_def soughtState_def)
  from drawMedia_seek_in_range [OF eq inv] mem
  have "kind assetM2 = Video
      \<and> js_ge (Fin 1) (Fin 0)
      \<and> js_le (Fin 1) (js_sub (reportedDuration assetM2 (heap exampleState 2)) (Fin (5 / 100)))
      \<and> js_lt (Fin 1) (reportedDuration assetM2 (heap exampleState 2))
      \<and> js_gt (Math_abs (js_sub (el_currentTime (heap exampleState 2)) (Fin 1))) (Fin (3 / 100))
      \<and> el_currentTime (heap soughtState 2) = Fin 1
      \<and> positionInRange assetM2 (heap soughtState 2)"
    by blast
  with eq inv mem show ?thesis by blast
qed

section \<open>Properties of the store\<close>

text \<open>
  Claim C10.  \<open>removeAudio(id)\<close> keeps exactly the audios whose id differs from \<open>id\<close>, in
  their order.  An active id other than \<open>id\<close> is unchanged; an active id equal to \<open>id\<close>
  becomes the id of the first remaining audio, or null when none remains.  So an active
  id that was null or the id of a listed audio is so afterwards.  The other fields of the
  store are unchanged.
\<close>

theorem removeAudio_keeps_active_valid:
  "audios (removeAudio i s) = filter (\<lambda>audio. id_audio audio \<noteq> i) (audios s)
   \<and> (activeAudioId s \<noteq> Some i \<longrightarrow> activeAudioId (removeAudio i s) = activeAudioId s)
   \<and> (activeAudioId s = Some i \<longrightarrow>
        activeAudioId (removeAudio i s) =
          (case filter (\<lambda>audio. id_audio audio \<noteq> i) (audios s) of
             [] \<Rightarrow> None
           | audio # _ \<Rightarrow> Some (id_audio audio)))
   \<and> ((activeAudioId s = None \<or> activeAudioId s \<in> Some ` id_audio ` set (audios s)) \<longrightarrow>
        (activeAudioId (removeAudio i s) = None
         \<or> activeAudioId (removeAudio i s) \<in> Some ` id_audio ` set (audios (removeAudio i s))))
   \<and> mediaLibrary (removeAudio i s) = mediaLibrary s
   \<and> timeline (removeAudio i s) = timeline s
   \<and> mode (removeAudio i s) = mode s"
proof -
  let ?remaining = "filter (\<lambda>audio. id_audio audio \<noteq> i) (audios s)"
  have a: "audios (removeAudio i s) = ?remaining" by (simp add: removeAudio_def Let_def)
  have b: "activeAudioId (removeAudio i s) = activeAudioId s" if "activeAudioId s \<noteq> Some i"
    using that by (simp add: removeAudio_def Let_def)
  have c: "activeAudioId (removeAudio i s) =
          (case ?remaining of [] \<Rightarrow> None | audio # _ \<Rightarrow> Some (id_audio audio))"
    if "activeAudioId s = Some i"
    using that by (simp add: removeAudio_def Let_def)
  have d: "activeAudioId (removeAudio i s) = None
         \<or> activeAudioId (removeAudio i s) \<in> Some ` id_audio ` set (audios (removeAudio i s))"
    if v: "activeAudioId s = None \<or> activeAudioId s \<in> Some ` id_audio ` set (audios s)"
  proof (cases "activeAudioId s = Some i")
    case True
    show ?thesis
    proof (cases ?remaining)
      case Nil
      with c [OF True] show ?thesis by simp
    next
      case (Cons x xs)
      then have "x \<in> set ?remaining" by simp
      with c [OF True] Cons a show ?thesis by auto
    qed
  next
    case False
    from v show ?thesis
    proof
      assume "activeAudioId s = None"
      with b [OF False] show ?thesis by simp
    next
      assume "activeAudioId s \<in> Some ` id_audio ` set (audios s)"
      then obtain x where x: "x \<in> set (audios s)" "activeAudioId s = Some (id_audio x)" by auto
      with False have "id_audio x \<noteq> i" by auto
      with x have "x \<in> set ?remaining" by simp
      with x(2) b [OF False] a show ?thesis by auto
    qed
  qed
  have e: "mediaLibrary (removeAudio i s) = mediaLibrary s
   \<and> timeline (removeAudio i s) = timeline s \<and> mode (removeAudio i s) = mode s"
    by (simp add: removeAudio_def Let_def)
  from a b c d e show ?thesis by blast
qed

theorem removeAudio_keeps_active_valid_witness:
  "activeAudioId twoAudios = Some ''au1''
   \<and> (activeAudioId twoAudios = None \<or> activeAudioId twoAudios \<in> Some ` id_audio ` set (audios twoAudios))
   \<and> audios (removeAudio ''au1'' twoAudios) = [secondAudio]
   \<and> activeAudioId (removeAudio ''au1'' twoAudios) = Some ''au2''
   \<and> activeAudioId twoAudios \<noteq> Some ''au2''
   \<and> audios (removeAudio ''au2'' twoAudios) = [exampleAudio]
   \<and> activeAudioId (removeAudio ''au2'' twoAudios) = Some ''au1''
   \<and> (activeAudioId (removeAudio ''au1'' twoAudios) = None
       \<or> activeAudioId (removeAudio ''au1'' twoAudios)
           \<in> Some ` id_audio ` set (audios (removeAudio ''au1'' twoAudios)))"
proof -
  have ids: "id_audio exampleAudio = ''au1''" "id_audio secondAudio = ''au2''"
    by (simp_all add: exampleAudio_def secondAudio_def)
  have t: "activeAudioId twoAudios = Some ''au1''" "audios twoAudios = [exampleAudio, secondAudio]"
    by (simp_all add: twoAudios_def)
  have v: "activeAudioId twoAudios = None \<or> activeAudioId twoAudios \<in> Some ` id_audio ` set (audios twoAudios)"
    by (simp add: t ids)
  have n: "activeAudioId twoAudios \<noteq> Some ''au2''" by (simp add: t)
  from removeAudio_keeps_active_valid [of "''au1''" twoAudios] t v
  have r1: "audios (removeAudio ''au1'' twoAudios) = [secondAudio]"
    "activeAudioId (removeAudio ''au1'' twoAudios) = Some ''au2''"
    "activeAudioId (removeAudio ''au1'' twoAudios) = None
       \<or> activeAudioId (removeAudio ''au1'' twoAudios)
           \<in> Some ` id_audio ` set (audios (removeAudio ''au1'' twoAudios))"
    by (simp_all add: ids)
  from removeAudio_keeps_active_valid [of "''au2''" twoAudios] t n
  have r2: "audios (removeAudio ''au2'' twoAudios) = [exampleAudio]"
    "activeAudioId (removeAudio ''au2'' twoAudios) = Some ''au1''"
    by (simp_all add: ids)
  from t(1) v n r1 r2 show ?thesis by blast
qed

end
